theory Spec2Isabelle
  imports Main "HOL-Library.AList"
begin

section \<open>Data model\<close>

text \<open>
  The status document is a JSON text at a fixed path. What \<open>json.load\<close> makes of it
  is a JSON value; numbers are kept as integers (the program itself only ever writes
  the value \<open>true\<close>). A Python dictionary read from a JSON object has one value for
  each key, so an object is an association list read with \<open>map_of\<close> and written with
  \<open>AList.update\<close>.
\<close>

datatype json =
    JNull
  | JBool bool
  | JNum int
  | JStr string
  | JArr "json list"
  | JObj "(string \<times> json) list"

text \<open>Python's truth value of a loaded JSON value, as \<open>if get_stage_status(...)\<close> takes it.\<close>

fun truthy :: "json \<Rightarrow> bool" where
  "truthy JNull = False"
| "truthy (JBool b) = b"
| "truthy (JNum n) = (n \<noteq> 0)"
| "truthy (JStr s) = (s \<noteq> [])"
| "truthy (JArr xs) = (xs \<noteq> [])"
| "truthy (JObj kvs) = (kvs \<noteq> [])"

text \<open>
  The file at \<open>STATUS_JSON_FILE\<close>: absent (\<open>os.path.exists\<close> is false), present with
  a content that \<open>json.load\<close> rejects, or present with a content that it parses.
\<close>

datatype status_file = NoFile | Unparsable | Doc json

datatype level = LInfo | LWarning | LError

text \<open>
  What a run does to its surroundings, in order. \<open>Call c ok\<close> is a shell command run
  through \<open>subprocess\<close>, with \<open>ok\<close> false when it raised \<open>CalledProcessError\<close>;
  \<open>Rmtree p ok\<close> is \<open>shutil.rmtree\<close>, with \<open>ok\<close> false when it raised \<open>OSError\<close>.
\<close>

datatype action =
    ReadStatus string
  | WriteStatus string
  | Call string bool
  | Rmtree string bool
  | Geteuid nat
  | PlatformDist
  | PathExists string bool
  | IsDir string bool
  | IsLink string bool
  | Log level string

text \<open>An event is an action together with the name of the function of the script that performs it.\<close>

type_synonym event = "string \<times> action"

text \<open>
  The host outside the status file is a value of an arbitrary type \<open>'w\<close>; the operating
  system's answers are functions of it, taken as a parameter. External commands are
  assumed not to touch the status file, and logging and writing the status file are
  assumed not to fail.
\<close>

record 'w state =
  world :: 'w
  status :: status_file
  trace :: "event list"

record 'w sys =
  shell :: "string \<Rightarrow> 'w \<Rightarrow> (bool \<times> string) \<times> 'w"
  euid :: "'w \<Rightarrow> nat"
  dist :: "'w \<Rightarrow> string \<times> string \<times> string"
  exists_at :: "string \<Rightarrow> 'w \<Rightarrow> bool"
  isdir_at :: "string \<Rightarrow> 'w \<Rightarrow> bool"
  islink_at :: "string \<Rightarrow> 'w \<Rightarrow> bool"
  rmtree_at :: "string \<Rightarrow> 'w \<Rightarrow> bool \<times> 'w"
  iteritems :: "(string \<times> string) list \<Rightarrow> (string \<times> string) list"

text \<open>
  A call either returns a value or ends the process: \<open>exit(c)\<close>, or an exception that
  nothing catches (the interpreter then prints a traceback and exits with code 1).
\<close>

datatype halt = Exit int | Raise string

datatype 'a res = Ret 'a | Stop halt

fun exit_code :: "unit res \<Rightarrow> int" where
  "exit_code (Ret u) = 0"
| "exit_code (Stop (Exit c)) = c"
| "exit_code (Stop (Raise e)) = 1"

type_synonym ('w, 'a) prog = "'w state \<Rightarrow> 'a res \<times> 'w state"

definition ret :: "'a \<Rightarrow> ('w, 'a) prog" where
  "ret a s = (Ret a, s)"

definition halt_with :: "halt \<Rightarrow> ('w, 'a) prog" where
  "halt_with h s = (Stop h, s)"

definition bnd :: "('w, 'a) prog \<Rightarrow> ('a \<Rightarrow> ('w, 'b) prog) \<Rightarrow> ('w, 'b) prog" where
  "bnd m f s = (case m s of (Ret a, s') \<Rightarrow> f a s' | (Stop h, s') \<Rightarrow> (Stop h, s'))"

definition emit :: "string \<Rightarrow> action \<Rightarrow> 'w state \<Rightarrow> 'w state" where
  "emit who a s = s\<lparr>trace := trace s @ [(who, a)]\<rparr>"

definition log :: "string \<Rightarrow> level \<Rightarrow> string \<Rightarrow> ('w, unit) prog" where
  "log who l msg s = (Ret (), emit who (Log l msg) s)"

text \<open>
  \<open>subprocess.check_call\<close> and \<open>subprocess.check_output\<close> with \<open>shell=True\<close>: the
  result is whether the command ended with status 0, and its output; the caller's
  \<open>except subprocess.CalledProcessError\<close> is the branch on the first component.
\<close>

definition subprocess :: "'w sys \<Rightarrow> string \<Rightarrow> string \<Rightarrow> ('w, bool \<times> string) prog" where
  "subprocess sys who cmd s =
     (case shell sys cmd (world s) of
        ((ok, out), w') \<Rightarrow> (Ret (ok, out), emit who (Call cmd ok) (s\<lparr>world := w'\<rparr>)))"

text \<open>The other calls into the operating system, each leaving its event.\<close>

definition os_geteuid :: "'w sys \<Rightarrow> string \<Rightarrow> ('w, nat) prog" where
  "os_geteuid sys who s = (let u = euid sys (world s) in (Ret u, emit who (Geteuid u) s))"

definition platform_dist :: "'w sys \<Rightarrow> string \<Rightarrow> ('w, string \<times> string \<times> string) prog" where
  "platform_dist sys who s = (Ret (dist sys (world s)), emit who PlatformDist s)"

definition os_path_exists :: "'w sys \<Rightarrow> string \<Rightarrow> string \<Rightarrow> ('w, bool) prog" where
  "os_path_exists sys who p s =
     (let b = exists_at sys p (world s) in (Ret b, emit who (PathExists p b) s))"

definition os_path_isdir :: "'w sys \<Rightarrow> string \<Rightarrow> string \<Rightarrow> ('w, bool) prog" where
  "os_path_isdir sys who p s =
     (let b = isdir_at sys p (world s) in (Ret b, emit who (IsDir p b) s))"

definition os_path_islink :: "'w sys \<Rightarrow> string \<Rightarrow> string \<Rightarrow> ('w, bool) prog" where
  "os_path_islink sys who p s =
     (let b = islink_at sys p (world s) in (Ret b, emit who (IsLink p b) s))"

text \<open>\<open>shutil.rmtree\<close> raises \<open>OSError\<close> when it cannot remove the tree.\<close>

definition shutil_rmtree :: "'w sys \<Rightarrow> string \<Rightarrow> string \<Rightarrow> ('w, unit) prog" where
  "shutil_rmtree sys who p s =
     (case rmtree_at sys p (world s) of
        (ok, w') \<Rightarrow>
          (if ok then Ret () else Stop (Raise ''OSError''),
           emit who (Rmtree p ok) (s\<lparr>world := w'\<rparr>)))"

section \<open>Status store\<close>

definition get_stage_status :: "string \<Rightarrow> string \<Rightarrow> ('w, json) prog" where
  "get_stage_status who stage_name s =
     (let s' = emit who (ReadStatus stage_name) s in
      case status s of
        NoFile \<Rightarrow> (Ret (JBool False), s')
      | Unparsable \<Rightarrow> (Stop (Raise ''ValueError''), s')
      | Doc (JObj kvs) \<Rightarrow>
          (Ret (case map_of kvs stage_name of None \<Rightarrow> JBool False | Some v \<Rightarrow> v), s')
      | Doc other \<Rightarrow> (Stop (Raise ''AttributeError''), s'))"

definition set_successful_stage_status :: "string \<Rightarrow> string \<Rightarrow> ('w, unit) prog" where
  "set_successful_stage_status who stage_name s =
     (let s' = emit who (WriteStatus stage_name) s in
      case status s of
        NoFile \<Rightarrow> (Ret (), s'\<lparr>status := Doc (JObj [(stage_name, JBool True)])\<rparr>)
      | Unparsable \<Rightarrow> (Stop (Raise ''ValueError''), s')
      | Doc (JObj kvs) \<Rightarrow>
          (Ret (), s'\<lparr>status := Doc (JObj (AList.update stage_name (JBool True) kvs))\<rparr>)
      | Doc other \<Rightarrow> (Stop (Raise ''TypeError''), s'))"

text \<open>A status file that both operations can work with: none, or a JSON object.\<close>

fun readable :: "status_file \<Rightarrow> bool" where
  "readable NoFile = True"
| "readable (Doc (JObj kvs)) = True"
| "readable other = False"

text \<open>The value stored under a key, if the file holds an object that has the key.\<close>

fun stored :: "status_file \<Rightarrow> string \<Rightarrow> json option" where
  "stored (Doc (JObj kvs)) k = map_of kvs k"
| "stored other k = None"

definition flag :: "status_file \<Rightarrow> string \<Rightarrow> bool" where
  "flag f k = (case stored f k of None \<Rightarrow> False | Some v \<Rightarrow> truthy v)"


section \<open>Python string operations used by the script\<close>

definition is_space :: "char \<Rightarrow> bool" where
  "is_space c = (c \<in> set [CHR '' '', CHR 0x09, CHR 0x0A, CHR 0x0B, CHR 0x0C, CHR 0x0D])"

text \<open>\<open>s.strip()\<close>\<close>

definition strip :: "string \<Rightarrow> string" where
  "strip s = rev (dropWhile is_space (rev (dropWhile is_space s)))"

text \<open>Cutting a string at every character that satisfies \<open>sep\<close>, empty pieces kept.\<close>

fun split_by :: "(char \<Rightarrow> bool) \<Rightarrow> string \<Rightarrow> string list" where
  "split_by sep [] = [[]]"
| "split_by sep (c # cs) =
     (if sep c then [] # split_by sep cs
      else (case split_by sep cs of
              [] \<Rightarrow> [[c]]
            | w # ws \<Rightarrow> (c # w) # ws))"

text \<open>\<open>s.split(c)\<close> with a one-character separator\<close>

definition split_on :: "char \<Rightarrow> string \<Rightarrow> string list" where
  "split_on c s = split_by (\<lambda>x. x = c) s"

text \<open>\<open>s.split()\<close>: pieces between runs of white space, none of them empty\<close>

definition split_ws :: "string \<Rightarrow> string list" where
  "split_ws s = filter (\<lambda>w. w \<noteq> []) (split_by is_space s)"

definition startswith :: "string \<Rightarrow> string \<Rightarrow> bool" where
  "startswith s p = (take (length p) s = p)"

text \<open>\<open>s.lower()\<close> on a byte string\<close>

definition lower :: "string \<Rightarrow> string" where
  "lower s = map (\<lambda>c. if 65 \<le> (of_char c :: nat) \<and> (of_char c :: nat) \<le> 90
                         then char_of ((of_char c :: nat) + 32) else c) s"

text \<open>\<open>int(c)\<close> for a string of one character: a decimal digit, or \<open>ValueError\<close>.\<close>

definition int_of_char :: "char \<Rightarrow> int option" where
  "int_of_char c =
     (if 48 \<le> (of_char c :: nat) \<and> (of_char c :: nat) \<le> 57
      then Some (int (of_char c) - 48) else None)"

section \<open>Environment probe\<close>

text \<open>
  The computation of \<open>get_os_version_and_name\<close> on what \<open>platform.dist()\<close> returned:
  \<open>Inl\<close> names the exception that an index out of range or a failed \<open>int\<close> raises.
\<close>

definition os_version_and_name :: "string \<times> string \<times> string \<Rightarrow> string + (int \<times> int \<times> string)" where
  "os_version_and_name d =
     (case d of (os_name, os_version, x) \<Rightarrow>
        if os_name = [] then Inr (0, 0, [])
        else if length os_version < 1 then Inl ''IndexError''
        else (case int_of_char (os_version ! 0) of
                None \<Rightarrow> Inl ''ValueError''
              | Some major \<Rightarrow>
                  if length os_version < 3 then Inl ''IndexError''
                  else (case int_of_char (os_version ! 2) of
                          None \<Rightarrow> Inl ''ValueError''
                        | Some minor \<Rightarrow> Inr (major, minor, os_name))))"

definition get_os_version_and_name :: "'w sys \<Rightarrow> string \<Rightarrow> ('w, int \<times> int \<times> string) prog" where
  "get_os_version_and_name sys who =
     bnd (platform_dist sys who) (\<lambda>d.
       case os_version_and_name d of
         Inl e \<Rightarrow> halt_with (Raise e)
       | Inr v \<Rightarrow> ret v)"

definition SUPPORTED_MAJOR_VERSION_OS :: int where
  "SUPPORTED_MAJOR_VERSION_OS = 7"

definition SUPPORTED_NAME_OS :: string where
  "SUPPORTED_NAME_OS = ''redhat''"

definition is_conversion_completed :: "('w, unit) prog" where
  "is_conversion_completed =
     (let who = ''is_conversion_completed'' in
      bnd (get_stage_status who ''completed'') (\<lambda>done.
        if truthy done
        then bnd (log who LInfo ''The system is already migrated to CentOS 7'') (\<lambda>u.
             halt_with (Exit 0))
        else ret ()))"

definition is_run_under_root :: "'w sys \<Rightarrow> ('w, unit) prog" where
  "is_run_under_root sys =
     (let who = ''is_run_under_root'' in
      bnd (os_geteuid sys who) (\<lambda>uid.
        if uid \<noteq> 0
        then bnd (log who LInfo ''This script should be run under any sudo user'') (\<lambda>u.
             halt_with (Exit 0))
        else ret ()))"

definition is_efi_system :: "'w sys \<Rightarrow> ('w, bool) prog" where
  "is_efi_system sys = os_path_exists sys ''is_efi_system'' ''/sys/firmware/efi''"

definition is_katello_satelite :: "'w sys \<Rightarrow> ('w, bool) prog" where
  "is_katello_satelite sys =
     (let who = ''is_katello_satelite'' in
      bnd (subprocess sys who ''rpm -q python-qpid-proton &> /dev/null'') (\<lambda>(ok, out).
        if \<not> ok then ret False
        else bnd (subprocess sys who ''rpm -q python2-qpid-proton &> /dev/null'') (\<lambda>(ok, out).
          if \<not> ok then ret False
          else ret True)))"

section \<open>Stages\<close>

text \<open>
  Log messages are the first line of the format string of the source; their arguments
  are left out.

  The loop of \<open>remove_katello_satellite_packages\<close> and the loop of
  \<open>remove_redhat_packages\<close> are the same text in the source: query the package, skip
  it with a warning when it is absent, erase it otherwise, and \<open>exit(1)\<close> when erasing
  fails.
\<close>

fun erase_pkgs :: "'w sys \<Rightarrow> string \<Rightarrow> string list \<Rightarrow> ('w, unit) prog" where
  \<open>erase_pkgs sys who [] = ret ()\<close>
| \<open>erase_pkgs sys who (removed_pkg # rest) =
     bnd (subprocess sys who (''rpm -q '' @ removed_pkg @ '' &> /dev/null'')) (\<lambda>(present, out).
       if \<not> present
       then bnd (log who LWarning ''Package "%s" is absent in system'') (\<lambda>u.
            erase_pkgs sys who rest)
       else bnd (subprocess sys who (''rpm -e --nodeps '' @ removed_pkg @ '' 2>&1'')) (\<lambda>(ok, out).
         if ok
         then bnd (log who LInfo ''Package "%s" is removed from system'') (\<lambda>u.
              erase_pkgs sys who rest)
         else bnd (log who LError ''Some error is occurred while erasing rpm package "%s".'') (\<lambda>u.
              halt_with (Exit 1))))\<close>

definition remove_katello_satellite_packages :: "'w sys \<Rightarrow> ('w, unit) prog" where
  "remove_katello_satellite_packages sys =
     (let who = ''remove_katello_satellite_packages'' in
      bnd (get_stage_status who ''remove_katello_satellite_packages'') (\<lambda>done.
        if truthy done then ret ()
        else bnd (log who LInfo ''Removing katello-satellite packages: %s'') (\<lambda>u.
             bnd (erase_pkgs sys who [''python-qpid-proton'', ''katello-agent'']) (\<lambda>u.
             set_successful_stage_status who ''remove_katello_satellite_packages''))))"

definition remove_redhat_packages :: "'w sys \<Rightarrow> ('w, unit) prog" where
  \<open>remove_redhat_packages sys =
     (let who = ''remove_redhat_packages'' in
      bnd (get_stage_status who ''remove_redhat_packages'') (\<lambda>done.
        if truthy done then ret ()
        else bnd (log who LInfo ''Remove Red Hat specific packages "%s"'') (\<lambda>u.
             bnd (erase_pkgs sys who
                    [''redhat-release-eula'', ''redhat-release-server'', ''redhat-logos'']) (\<lambda>u.
             set_successful_stage_status who ''remove_redhat_packages''))))\<close>

text \<open>
  The condition \<open>os.path.isdir(d) and not os.path.islink(d)\<close> asks
  \<open>os.path.islink\<close> only when \<open>os.path.isdir\<close> is true. Nothing catches the
  \<open>OSError\<close> of \<open>shutil.rmtree\<close>.
\<close>

fun remove_dirs :: "'w sys \<Rightarrow> string \<Rightarrow> string list \<Rightarrow> ('w, unit) prog" where
  \<open>remove_dirs sys who [] = ret ()\<close>
| \<open>remove_dirs sys who (removed_dir # rest) =
     bnd (os_path_isdir sys who removed_dir) (\<lambda>isdir.
     bnd (if isdir
          then bnd (os_path_islink sys who removed_dir) (\<lambda>islink. ret (\<not> islink))
          else ret False) (\<lambda>cond.
       if cond
       then bnd (shutil_rmtree sys who removed_dir) (\<lambda>u.
            remove_dirs sys who rest)
       else bnd (log who LInfo ''Directory "%s" is absent in system'') (\<lambda>u.
            remove_dirs sys who rest)))\<close>

definition remove_not_needed_dirs :: "'w sys \<Rightarrow> ('w, unit) prog" where
  \<open>remove_not_needed_dirs sys =
     (let who = ''remove_not_needed_dirs'' in
      bnd (get_stage_status who ''remove_not_needed_dirs'') (\<lambda>done.
        if truthy done then ret ()
        else bnd (log who LInfo ''Remove not needed Red Hat directories "%s"'') (\<lambda>u.
             bnd (remove_dirs sys who
                    [''/usr/share/redhat-release'', ''/usr/share/doc/redhat-release'']) (\<lambda>u.
             set_successful_stage_status who ''remove_not_needed_dirs''))))\<close>

fun install_pkgs :: "'w sys \<Rightarrow> string \<Rightarrow> (string \<times> string) list \<Rightarrow> ('w, unit) prog" where
  \<open>install_pkgs sys who [] = ret ()\<close>
| \<open>install_pkgs sys who ((installed_pkg_name, installed_pkg_url) # rest) =
     bnd (log who LInfo ''Install CentOS package "%s"'') (\<lambda>u.
     bnd (subprocess sys who
            (''yum localinstall '' @ installed_pkg_url @ '' -y &> /dev/null'')) (\<lambda>(ok, out).
       if ok
       then bnd (log who LInfo ''CentOS package "%s" is installed'') (\<lambda>u.
            install_pkgs sys who rest)
       else bnd (log who LError
                   ''Some error is occurred while installing CentOS package "%s".'') (\<lambda>u.
            halt_with (Exit 1))))\<close>

text \<open>
  \<open>installed_pkgs\<close> is a dictionary; Python 2 leaves the order in which \<open>iteritems\<close>
  goes through it open, so the order is the parameter \<open>iteritems sys\<close>.
\<close>

definition installed_pkgs :: "(string \<times> string) list" where
  "installed_pkgs =
     [(''centos-release'',
       ''http://mirror.centos.org/centos/7/os/x86_64/Packages'' @
       ''/centos-release-7-9.2009.0.el7.centos.x86_64.rpm''),
      (''centos-logos'',
       ''http://mirror.centos.org/centos/7/os/x86_64/Packages'' @
       ''/centos-logos-70.0.6-3.el7.centos.noarch.rpm'')]"

definition install_centos_packages :: "'w sys \<Rightarrow> ('w, unit) prog" where
  "install_centos_packages sys =
     (let who = ''install_centos_packages'' in
      bnd (get_stage_status who ''install_centos_packages'') (\<lambda>done.
        if truthy done then ret ()
        else bnd (install_pkgs sys who (iteritems sys installed_pkgs)) (\<lambda>u.
             set_successful_stage_status who ''install_centos_packages'')))"

definition update_the_system :: "'w sys \<Rightarrow> ('w, unit) prog" where
  "update_the_system sys =
     (let who = ''update_the_system'' in
      bnd (get_stage_status who ''update_the_system'') (\<lambda>done.
        if truthy done then ret ()
        else bnd (log who LInfo ''Run updating of system'') (\<lambda>u.
             bnd (subprocess sys who ''yum update -y'') (\<lambda>(ok, out).
               if \<not> ok
               then bnd (log who LError ''Some error is occurred while updating system.'') (\<lambda>u.
                    halt_with (Exit 1))
               else bnd (log who LInfo ''Updating of system is completed successful'') (\<lambda>u.
                    set_successful_stage_status who ''update_the_system'')))))"

definition synchronization_of_distribution :: "'w sys \<Rightarrow> ('w, unit) prog" where
  "synchronization_of_distribution sys =
     (let who = ''synchronization_of_distribution'' in
      bnd (get_stage_status who ''synchronization_of_distribution'') (\<lambda>done.
        if truthy done then ret ()
        else bnd (log who LInfo ''Run synchronization of distribution'') (\<lambda>u.
             bnd (subprocess sys who ''yum distro-sync -y'') (\<lambda>(ok, out).
               if \<not> ok
               then bnd (log who LError
                           ''Some error is occurred while synchronization of distribution.'') (\<lambda>u.
                    halt_with (Exit 1))
               else bnd (log who LInfo
                           ''Synchronization of distribution is completed successful'') (\<lambda>u.
                    set_successful_stage_status who ''synchronization_of_distribution'')))))"

definition recreate_grub_config :: "'w sys \<Rightarrow> string \<Rightarrow> ('w, unit) prog" where
  \<open>recreate_grub_config sys grub_config_path =
     (let who = ''recreate_grub_config'' in
      bnd (get_stage_status who ''recreate_grub_config'') (\<lambda>done.
        if truthy done then ret ()
        else bnd (subprocess sys who
                    (''grub2-mkconfig -o '' @ grub_config_path @ '' 2>&1'')) (\<lambda>(ok, out).
               if \<not> ok
               then bnd (log who LError
                           ''Some error is occurred while recreating grub config by path "%s".'') (\<lambda>u.
                    halt_with (Exit 1))
               else bnd (log who LInfo
                           ''The grub config is recreated by path "%s" successful'') (\<lambda>u.
                    set_successful_stage_status who ''recreate_grub_config''))))\<close>

text \<open>
  The loop of \<open>get_pkgs_related_to_secure_boot\<close> over the lines of the package
  list. Unpacking a line into three fields raises \<open>ValueError\<close> when the line does
  not have exactly three; the \<open>except\<close> clause of the source does not catch it.
\<close>

definition pkg_prefixes :: "string list" where
  "pkg_prefixes = [''shim'', ''fwupd'', ''grub2'', ''kernel-'']"

fun scan_pkgs :: "string \<Rightarrow> string list \<Rightarrow> (string \<times> string) list \<Rightarrow>
    ('w, (string \<times> string) list) prog" where
  \<open>scan_pkgs who [] result = ret result\<close>
| \<open>scan_pkgs who (line # rest) result =
     (case split_on (CHR 0x09) (strip line) of
        [pkg_name, pkg, vendor] \<Rightarrow>
          if list_ex (startswith pkg_name) pkg_prefixes
          then bnd (log who LInfo
                      ''The package "%s" relates to Secure Boot and released by "%s"'') (\<lambda>u.
               scan_pkgs who rest (AList.update pkg (lower vendor) result))
          else scan_pkgs who rest result
      | other \<Rightarrow> halt_with (Raise ''ValueError''))\<close>

definition get_pkgs_related_to_secure_boot ::
    "'w sys \<Rightarrow> string \<Rightarrow> ('w, (string \<times> string) list) prog" where
  \<open>get_pkgs_related_to_secure_boot sys who =
     bnd (subprocess sys who
            (''rpm -qa --queryformat "%{name}'' @ [CHR 0x09] @
             ''%{name}-%{version}-%{release}.%{arch}'' @ [CHR 0x09] @
             ''%{vendor}'' @ [CHR 0x0A] @ ''" 2>&1'')) (\<lambda>(ok, output).
       if \<not> ok
       then bnd (log who LError
                   ''Some error is occurred while getting list of secure boot related packages.'') (\<lambda>u.
            halt_with (Exit 1))
       else scan_pkgs who (split_on (CHR 0x0A) (strip output)) [])\<close>

definition get_kernel_pkg_name_for_default_boot_record ::
    "'w sys \<Rightarrow> string \<Rightarrow> ('w, (string \<times> string) list) prog" where
  \<open>get_kernel_pkg_name_for_default_boot_record sys who =
     (let failed = bnd (log who LError
                     (''Some error is occurred while getting '' @
                      ''a kernel package name for default boot record.'')) (\<lambda>u.
                   halt_with (Exit 1)) in
      bnd (subprocess sys who ''grubby --default-kernel 2>&1'') (\<lambda>(ok, out).
        if \<not> ok then failed
        else (let kernel_path = strip out in
          bnd (subprocess sys who
                 (''rpm -qf "'' @ kernel_path @
                  ''" --queryformat "%{name}-%{version}-%{release}.%{arch}'' @ [CHR 0x09] @
                  ''%{vendor}'' @ [CHR 0x0A] @ ''"'')) (\<lambda>(ok, out).
            if \<not> ok then failed
            else (case split_ws (strip out) of
                    [kernel_pkg_name, vendor] \<Rightarrow>
                      bnd (log who LInfo
                             (''Kernel package name "%s" is set for default '' @
                              ''boot record and released by "%s"'')) (\<lambda>u.
                      ret [(kernel_pkg_name, lower vendor)])
                  | other \<Rightarrow> halt_with (Raise ''ValueError''))))))\<close>

fun reinstall_pkgs :: "'w sys \<Rightarrow> string \<Rightarrow> (string \<times> string) list \<Rightarrow> ('w, unit) prog" where
  \<open>reinstall_pkgs sys who [] = ret ()\<close>
| \<open>reinstall_pkgs sys who ((pkg, vendor) # rest) =
     (if vendor = ''centos'' then reinstall_pkgs sys who rest
      else bnd (log who LInfo
                  ''Package "%s" is released not by CentOS and should reinstalled'') (\<lambda>u.
           bnd (subprocess sys who (''yum reinstall -y "'' @ pkg @ ''"'')) (\<lambda>(ok, out).
             if ok then reinstall_pkgs sys who rest
             else bnd (log who LError
                         ''Some error is occurred while reinstalling a secure boot related package.'') (\<lambda>u.
                  halt_with (Exit 1)))))\<close>

text \<open>\<open>d.update(e)\<close> for dictionaries\<close>

definition dict_update :: "(string \<times> string) list \<Rightarrow> (string \<times> string) list \<Rightarrow>
    (string \<times> string) list" where
  "dict_update d e = foldl (\<lambda>acc (k, v). AList.update k v acc) d e"

definition reinstall_secure_boot_related_packages :: "'w sys \<Rightarrow> ('w, unit) prog" where
  "reinstall_secure_boot_related_packages sys =
     (let who = ''reinstall_secure_boot_related_packages'' in
      bnd (get_stage_status who ''reinstall_secure_boot_related_packages'') (\<lambda>done.
        if truthy done then ret ()
        else bnd (get_pkgs_related_to_secure_boot sys who) (\<lambda>pkgs.
             bnd (get_kernel_pkg_name_for_default_boot_record sys who) (\<lambda>kernel.
             bnd (reinstall_pkgs sys who (iteritems sys (dict_update pkgs kernel))) (\<lambda>u.
             set_successful_stage_status who ''reinstall_secure_boot_related_packages'')))))"

definition add_boot_record_by_efibootmgr :: "'w sys \<Rightarrow> ('w, unit) prog" where
  \<open>add_boot_record_by_efibootmgr sys =
     (let who = ''add_boot_record_by_efibootmgr'';
          bootloader_path = ''/EFI/centos/shimx64.efi'' in
      bnd (get_stage_status who ''add_boot_record_by_efibootmgr'') (\<lambda>done.
        if truthy done then ret ()
        else bnd (subprocess sys who
                    (''efibootmgr -c -L "CentOS Linux" -l "'' @ bootloader_path @ ''"'')) (\<lambda>(ok, out).
               if ok
               then bnd (log who LInfo
                           ''The new EFI boot record is added for bootloader "%s"'') (\<lambda>u.
                    set_successful_stage_status who ''add_boot_record_by_efibootmgr'')
               else bnd (log who LError
                           ''Some error is occurred while adding a new boot EFI record.'') (\<lambda>u.
                    halt_with (Exit 1)))))\<close>

definition check_and_set_default_grub_record :: "'w sys \<Rightarrow> ('w, unit) prog" where
  "check_and_set_default_grub_record sys =
     (let who = ''check_and_set_default_grub_record'' in
      bnd (get_stage_status who ''check_and_set_default_grub_record'') (\<lambda>done.
        if truthy done then ret ()
        else bnd (subprocess sys who ''grubby --info=DEFAULT &> /dev/null'') (\<lambda>(ok, out).
               if ok
               then set_successful_stage_status who ''check_and_set_default_grub_record''
               else bnd (subprocess sys who
                           ''grubby --set-default=`grubby --default-kernel`'') (\<lambda>(ok, out).
                      if ok
                      then bnd (log who LInfo
                                  ''The default GRUB boot record is set for CentOS kernel'') (\<lambda>u.
                           set_successful_stage_status who ''check_and_set_default_grub_record'')
                      else bnd (log who LError
                                  ''Some error is occurred while set a default GRUB record.'') (\<lambda>u.
                           halt_with (Exit 1))))))"

definition check_supported_os :: "'w sys \<Rightarrow> ('w, unit) prog" where
  \<open>check_supported_os sys =
     (let who = ''check_supported_os'' in
      bnd (get_stage_status who ''check_supported_os'') (\<lambda>done.
        if truthy done then ret ()
        else bnd (get_os_version_and_name sys who) (\<lambda>(major_version, minor_version, os_name).
               if major_version \<noteq> SUPPORTED_MAJOR_VERSION_OS
               then bnd (log who LInfo
                           ''Current major version "%s" is not supported by this script.'') (\<lambda>u.
                    halt_with (Exit 0))
               else if os_name \<noteq> SUPPORTED_NAME_OS
               then bnd (log who LInfo
                           ''Current OS "%s" is not supported by this script.'') (\<lambda>u.
                    halt_with (Exit 0))
               else set_successful_stage_status who ''check_supported_os'')))\<close>

section \<open>Orchestrator\<close>

definition main :: "'w sys \<Rightarrow> ('w, unit) prog" where
  "main sys =
     bnd is_conversion_completed (\<lambda>u.
     bnd (is_run_under_root sys) (\<lambda>u.
     bnd (check_supported_os sys) (\<lambda>u.
     bnd (remove_redhat_packages sys) (\<lambda>u.
     bnd (remove_not_needed_dirs sys) (\<lambda>u.
     bnd (is_katello_satelite sys) (\<lambda>katello.
     bnd (if katello then remove_katello_satellite_packages sys else ret ()) (\<lambda>u.
     bnd (install_centos_packages sys) (\<lambda>u.
     bnd (update_the_system sys) (\<lambda>u.
     bnd (synchronization_of_distribution sys) (\<lambda>u.
     bnd (is_efi_system sys) (\<lambda>efi.
     bnd (if efi
          then bnd (recreate_grub_config sys ''/boot/efi/EFI/centos/grub.cfg'') (\<lambda>u.
               bnd (reinstall_secure_boot_related_packages sys) (\<lambda>u.
               add_boot_record_by_efibootmgr sys))
          else recreate_grub_config sys ''/boot/grub2/grub.cfg'') (\<lambda>u.
     bnd (check_and_set_default_grub_record sys) (\<lambda>u.
     bnd (set_successful_stage_status ''main'' ''completed'') (\<lambda>u.
     log ''main'' LInfo ''The system is migrated to CentOS 7''))))))))))))))"

text \<open>A process starts with nothing done yet.\<close>

definition start :: "'w \<Rightarrow> status_file \<Rightarrow> 'w state" where
  "start w f = \<lparr>world = w, status = f, trace = []\<rparr>"

section \<open>Notions used to state and prove the properties\<close>

text \<open>What \<open>set_successful_stage_status\<close> makes of a status file it can work with.\<close>

definition mark :: "string \<Rightarrow> status_file \<Rightarrow> status_file" where
  "mark k f = (case f of NoFile \<Rightarrow> Doc (JObj [(k, JBool True)])
     | Doc (JObj kvs) \<Rightarrow> Doc (JObj (AList.update k (JBool True) kvs))
     | other \<Rightarrow> other)"

text \<open>
  The commands that only ask whether something is there. The script takes their
  failure as an answer (the package is absent, no default boot record is set) and goes
  on; the failure of any other command ends the run.
\<close>

definition presence_query :: "string \<Rightarrow> bool" where
  \<open>presence_query c =
     (c \<in> set (map (\<lambda>p. ''rpm -q '' @ p @ '' &> /dev/null'')
                  [''python-qpid-proton'', ''python2-qpid-proton'', ''katello-agent'',
                   ''redhat-release-eula'', ''redhat-release-server'', ''redhat-logos''])
      \<or> c = ''grubby --info=DEFAULT &> /dev/null'')\<close>

text \<open>The events that are a hard failure: a failed command that is no presence query, a failed \<open>rmtree\<close>.\<close>

fun failed_call :: "event \<Rightarrow> bool" where
  "failed_call (n, Call c ok) = (\<not> ok \<and> \<not> presence_query c)"
| "failed_call (n, Rmtree p ok) = (\<not> ok)"
| "failed_call (n, a) = False"

definition clean :: "event list \<Rightarrow> bool" where
  "clean ev = (\<forall>e\<in>set ev. \<not> failed_call e)"

text \<open>
  The two ways in which a list of events of the function \<open>n\<close> ends in a hard failure:
  a failed command, its error log line and \<open>exit(1)\<close>; or a failed \<open>rmtree\<close> and its
  \<open>OSError\<close>. Nothing failed before.
\<close>

definition aborted :: "string \<Rightarrow> 'a res \<Rightarrow> event list \<Rightarrow> bool" where
  "aborted n r ev =
     ((r = Stop (Exit 1) \<and>
       (\<exists>pre c msg. ev = pre @ [(n, Call c False), (n, Log LError msg)] \<and>
          \<not> presence_query c \<and> clean pre)) \<or>
      (r = Stop (Raise ''OSError'') \<and>
       (\<exists>pre p. ev = pre @ [(n, Rmtree p False)] \<and> clean pre)))"

text \<open>
  A piece of the body of \<open>n\<close>: it only appends events of \<open>n\<close>, none of them the guard
  lookup of \<open>n\<close>, and either nothing in them is a hard failure or they end in one and
  the piece stops there. \<open>keeps\<close>: the status file is left alone. \<open>marks n\<close>: it is
  left alone unless the piece returns, and then the key \<open>n\<close> has been set. \<open>emits\<close>:
  at least one event is appended.
\<close>

definition frag :: "string \<Rightarrow> ('w, 'a) prog \<Rightarrow> bool" where
  "frag n m = (\<forall>s.
     (\<exists>ev. trace (snd (m s)) = trace s @ ev \<and>
        (\<forall>e\<in>set ev. fst e = n \<and> snd e \<noteq> ReadStatus n) \<and>
        (clean ev \<or> aborted n (fst (m s)) ev)))"

definition keeps :: "('w, 'a) prog \<Rightarrow> bool" where
  "keeps m = (\<forall>s. status (snd (m s)) = status s)"

definition marks :: "string \<Rightarrow> ('w, unit) prog \<Rightarrow> bool" where
  "marks n m = (\<forall>s. readable (status s) \<longrightarrow>
     status (snd (m s)) = (if fst (m s) = Ret () then mark n (status s) else status s))"

definition emits :: "('w, 'a) prog \<Rightarrow> bool" where
  "emits m = (\<forall>s. \<exists>ev. ev \<noteq> [] \<and> trace (snd (m s)) = trace s @ ev)"

text \<open>The functions of the script that start with a guard on a key of their own name.\<close>

definition stage_names :: "string list" where
  "stage_names =
     [''check_supported_os'', ''remove_redhat_packages'', ''remove_not_needed_dirs'',
      ''remove_katello_satellite_packages'', ''install_centos_packages'', ''update_the_system'',
      ''synchronization_of_distribution'', ''recreate_grub_config'',
      ''reinstall_secure_boot_related_packages'', ''add_boot_record_by_efibootmgr'',
      ''check_and_set_default_grub_record'']"

text \<open>
  What every step of \<open>main\<close> does, whatever happens in it: the status file stays usable,
  keys that are set stay set, no key but the step's own (and \<open>completed\<close>) gets set,
  the events appended are the step's own, a stage reads its guard, does no more than
  that when its key is set and enters its body when it is not, and a hard failure is
  the end of the events, in a stage whose key is then still unset.
\<close>

definition step :: "string \<Rightarrow> ('w, 'a) prog \<Rightarrow> bool" where
  "step n m = (\<forall>s.
     (readable (status s) \<longrightarrow> readable (status (snd (m s)))) \<and>
     (\<forall>k. flag (status s) k \<longrightarrow> flag (status (snd (m s))) k) \<and>
     (\<forall>k. k \<noteq> n \<longrightarrow> k \<noteq> ''completed'' \<longrightarrow> flag (status (snd (m s))) k \<longrightarrow> flag (status s) k) \<and>
     (\<exists>ev. trace (snd (m s)) = trace s @ ev \<and> (\<forall>e\<in>set ev. fst e = n) \<and>
        (n \<in> set stage_names \<longrightarrow> (n, ReadStatus n) \<in> set ev) \<and>
        (n \<in> set stage_names \<longrightarrow> flag (status s) n \<longrightarrow> (\<forall>e\<in>set ev. snd e = ReadStatus n)) \<and>
        (readable (status s) \<longrightarrow> \<not> flag (status s) n \<longrightarrow> n \<in> set stage_names \<longrightarrow>
           (\<exists>a. a \<noteq> ReadStatus n \<and> (n, a) \<in> set ev)) \<and>
        (clean ev \<or> (aborted n (fst (m s)) ev \<and> \<not> flag (status (snd (m s))) n \<and> n \<in> set stage_names))))"

text \<open>
  Triples with one postcondition for a call that returns and one for a call that ends
  the process.
\<close>

definition hoare :: "('w state \<Rightarrow> bool) \<Rightarrow> ('w, 'a) prog \<Rightarrow> ('a \<Rightarrow> 'w state \<Rightarrow> bool) \<Rightarrow>
    (halt \<Rightarrow> 'w state \<Rightarrow> bool) \<Rightarrow> bool" where
  "hoare P m Q E =
     (\<forall>s. P s \<longrightarrow> (case fst (m s) of Ret a \<Rightarrow> Q a (snd (m s)) | Stop h \<Rightarrow> E h (snd (m s))))"

text \<open>
  The effect of a step as a relation between states, the value returned forgotten.
\<close>

definition void :: "'a res \<Rightarrow> unit res" where
  "void r = (case r of Ret a \<Rightarrow> Ret () | Stop h \<Rightarrow> Stop h)"

definition step_rel :: "string \<Rightarrow> 'w state \<Rightarrow> unit res \<Rightarrow> 'w state \<Rightarrow> bool" where
  "step_rel n s r s' =
    ((readable (status s) \<longrightarrow> readable (status s')) \<and>
     (\<forall>k. flag (status s) k \<longrightarrow> flag (status s') k) \<and>
     (\<forall>k. k \<noteq> n \<longrightarrow> k \<noteq> ''completed'' \<longrightarrow> flag (status s') k \<longrightarrow> flag (status s) k) \<and>
     (\<exists>ev. trace s' = trace s @ ev \<and> (\<forall>e\<in>set ev. fst e = n) \<and>
        (n \<in> set stage_names \<longrightarrow> (n, ReadStatus n) \<in> set ev) \<and>
        (n \<in> set stage_names \<longrightarrow> flag (status s) n \<longrightarrow> (\<forall>e\<in>set ev. snd e = ReadStatus n)) \<and>
        (readable (status s) \<longrightarrow> \<not> flag (status s) n \<longrightarrow> n \<in> set stage_names \<longrightarrow>
           (\<exists>a. a \<noteq> ReadStatus n \<and> (n, a) \<in> set ev)) \<and>
        (clean ev \<or> (aborted n r ev \<and> \<not> flag (status s') n \<and> n \<in> set stage_names))))"

text \<open>The names of the functions that \<open>main\<close> calls, and \<open>main\<close> itself.\<close>

definition main_tags :: "string list" where
  "main_tags = [''is_conversion_completed'', ''is_run_under_root'', ''is_katello_satelite'',
     ''is_efi_system'', ''main''] @ stage_names"

text \<open>Completion written for a list of stage identifiers, one after the other.\<close>

definition writes :: "string \<Rightarrow> string list \<Rightarrow> 'w state \<Rightarrow> 'w state" where
  "writes who ks s = foldl (\<lambda>s k. snd (set_successful_stage_status who k s)) s ks"

text \<open>
  The version as the claim about \<open>get_os_version_and_name\<close> means it: the decimal
  numbers before and after the first dot of the version string.
\<close>

definition is_digit :: "char \<Rightarrow> bool" where
  "is_digit c = (int_of_char c \<noteq> None)"

definition decimal :: "string \<Rightarrow> int" where
  "decimal ds = foldl (\<lambda>acc c. 10 * acc + (case int_of_char c of None \<Rightarrow> 0 | Some d \<Rightarrow> d)) 0 ds"

definition version_components :: "string \<Rightarrow> (int \<times> int) option" where
  "version_components v =
     (case split_on (CHR ''.'') v of
        major # minor # rest \<Rightarrow>
          if major \<noteq> [] \<and> minor \<noteq> [] \<and> list_all is_digit major \<and> list_all is_digit minor
          then Some (decimal major, decimal minor) else None
      | other \<Rightarrow> None)"

text \<open>
  Hosts and status documents on which the theorems are tried. \<open>sysU\<close> reports Red Hat
  7.10; on it every \<open>rpm -q\<close> succeeds and every other command fails.
\<close>

definition sysU :: "unit sys" where
  "sysU = \<lparr>shell = (\<lambda>c w. ((take 6 c = ''rpm -q'', []), w)), euid = (\<lambda>w. 0),
     dist = (\<lambda>w. (''redhat'', ''7.10'', ''Maipo'')), exists_at = (\<lambda>p w. False),
     isdir_at = (\<lambda>p w. False), islink_at = (\<lambda>p w. False), rmtree_at = (\<lambda>p w. (True, w)),
     iteritems = (\<lambda>d. d)\<rparr>"


text \<open>
  \<open>sysF\<close>: a Red Hat 7.9 host on which every \<open>rpm -q\<close> succeeds and every other
  command fails. \<open>sysC\<close>: the same host reporting CentOS 8.1. \<open>sysK efi\<close>: a host on
  which every command fails, booted through EFI or not. \<open>sysD\<close>: \<open>sysF\<close> with the
  directories to remove present and \<open>rmtree\<close> failing. \<open>docK\<close> and \<open>docE\<close> are the
  status documents that a legacy-boot and an EFI run leave just before \<open>completed\<close> is
  written; \<open>docC\<close> and \<open>docD\<close> those left after the first and the second stage.
\<close>

definition sysF :: "unit sys" where
  "sysF = \<lparr>shell = (\<lambda>c w. ((take 6 c = ''rpm -q'', []), w)), euid = (\<lambda>w. 0),
     dist = (\<lambda>w. (''redhat'', ''7.9'', ''Maipo'')), exists_at = (\<lambda>p w. False),
     isdir_at = (\<lambda>p w. False), islink_at = (\<lambda>p w. False), rmtree_at = (\<lambda>p w. (True, w)),
     iteritems = (\<lambda>d. d)\<rparr>"



definition sysK :: "bool \<Rightarrow> unit sys" where
  "sysK efi = \<lparr>shell = (\<lambda>c w. ((False, []), w)), euid = (\<lambda>w. 0),
     dist = (\<lambda>w. (''centos'', ''7.9.2009'', ''Core'')), exists_at = (\<lambda>p w. efi),
     isdir_at = (\<lambda>p w. False), islink_at = (\<lambda>p w. False), rmtree_at = (\<lambda>p w. (True, w)),
     iteritems = (\<lambda>d. d)\<rparr>"

definition docK :: status_file where
  "docK = Doc (JObj [(''check_supported_os'', JBool True),
     (''remove_redhat_packages'', JBool True), (''remove_not_needed_dirs'', JBool True),
     (''install_centos_packages'', JBool True), (''update_the_system'', JBool True),
     (''synchronization_of_distribution'', JBool True), (''recreate_grub_config'', JBool True),
     (''check_and_set_default_grub_record'', JBool True)])"


definition sysD :: "unit sys" where
  "sysD = sysF\<lparr>isdir_at := (\<lambda>p w. True), rmtree_at := (\<lambda>p w. (False, w))\<rparr>"

definition docD :: status_file where
  "docD = Doc (JObj [(''check_supported_os'', JBool True),
     (''remove_redhat_packages'', JBool True)])"

text \<open>
  The invariant of a run in which nothing has failed, starting from the status file \<open>f\<close>,
  and what holds when the run has ended.
\<close>

definition unfailed :: "status_file \<Rightarrow> 'w state \<Rightarrow> bool" where
  "unfailed f s = (clean (trace s) \<and> (\<forall>k. flag f k \<longrightarrow> flag (status s) k))"

definition failed_at :: "status_file \<Rightarrow> halt \<Rightarrow> 'w state \<Rightarrow> bool" where
  "failed_at f h s =
     ((\<forall>k. flag f k \<longrightarrow> flag (status s) k) \<and>
      (clean (trace s) \<or>
       (\<exists>n. aborted n (Stop h :: unit res) (trace s) \<and> \<not> flag (status s) n \<and>
            n \<in> set stage_names)))"

text \<open>\<open>sysG\<close>: an EFI host on which every command succeeds.\<close>

definition sysG :: "unit sys" where
  "sysG = \<lparr>shell = (\<lambda>c w. ((True, []), w)), euid = (\<lambda>w. 0),
     dist = (\<lambda>w. (''redhat'', ''7.9'', ''Maipo'')), exists_at = (\<lambda>p w. True),
     isdir_at = (\<lambda>p w. False), islink_at = (\<lambda>p w. False), rmtree_at = (\<lambda>p w. (True, w)),
     iteritems = (\<lambda>d. d)\<rparr>"

text \<open>
  Two properties of events: not a failed query of \<open>is_katello_satelite\<close>, and not an
  event of the removal stage. In every run one of them holds of all events.
\<close>

definition no_agent_miss :: "event \<Rightarrow> bool" where
  "no_agent_miss e = (\<forall>c. e \<noteq> (''is_katello_satelite'', Call c False))"

definition no_agent_removal :: "event \<Rightarrow> bool" where
  "no_agent_removal e = (fst e \<noteq> ''remove_katello_satellite_packages'')"

text \<open>
  The command of \<open>recreate_grub_config\<close>, and the events that can occur on an EFI host
  and on a legacy-boot host.
\<close>

definition mkconfig :: "string \<Rightarrow> string" where
  "mkconfig p = ''grub2-mkconfig -o '' @ p @ '' 2>&1''"





section \<open>Pieces of a stage body\<close>

lemma emit_simps [simp]: "status (emit who a s) = status s" "world (emit who a s) = world s"
  "trace (emit who a s) = trace s @ [(who, a)]"
  by (simp_all add: emit_def)

lemma clean_simps [simp]: "clean []" "clean (e # ev) = (\<not> failed_call e \<and> clean ev)"
  "clean (ev @ ev') = (clean ev \<and> clean ev')"
  by (auto simp: clean_def)

lemma fragI:
  assumes "\<And>s r s'. m s = (r, s') \<Longrightarrow> (\<exists>ev. trace s' = trace s @ ev \<and> (\<forall>e\<in>set ev. fst e = n \<and> snd e \<noteq> ReadStatus n) \<and>
        (clean ev \<or> aborted n r ev))"
  shows "frag n m"
  unfolding frag_def
proof
  fix s
  show "(\<exists>ev. trace (snd (m s)) = trace s @ ev \<and>
        (\<forall>e\<in>set ev. fst e = n \<and> snd e \<noteq> ReadStatus n) \<and>
        (clean ev \<or> aborted n (fst (m s)) ev))"
    using assms[of s "fst (m s)" "snd (m s)"] by simp
qed

lemma fragD:
  assumes "frag n m" "m s = (r, s')"
  obtains ev where "trace s' = trace s @ ev"
    "\<forall>e\<in>set ev. fst e = n \<and> snd e \<noteq> ReadStatus n" "clean ev \<or> aborted n r ev"
  using assms unfolding frag_def by (metis fst_conv snd_conv)

lemma aborted_append:
  assumes "clean ev1" "aborted n r ev2"
  shows "aborted n r (ev1 @ ev2)"
proof -
  from assms(2) consider
    (call) pre c msg where "r = Stop (Exit 1)"
      "ev2 = pre @ [(n, Call c False), (n, Log LError msg)]" "\<not> presence_query c" "clean pre"
  | (rm) pre p where "r = Stop (Raise ''OSError'')" "ev2 = pre @ [(n, Rmtree p False)]" "clean pre"
    unfolding aborted_def by blast
  then show ?thesis
  proof cases
    case call
    have "ev1 @ ev2 = (ev1 @ pre) @ [(n, Call c False), (n, Log LError msg)]"
      using call(2) by simp
    moreover have "clean (ev1 @ pre)" using assms(1) call(4) by simp
    ultimately show ?thesis unfolding aborted_def using call(1,3) by blast
  next
    case rm
    have "ev1 @ ev2 = (ev1 @ pre) @ [(n, Rmtree p False)]" using rm(2) by simp
    moreover have "clean (ev1 @ pre)" using assms(1) rm(3) by simp
    ultimately show ?thesis unfolding aborted_def using rm(1) by blast
  qed
qed

lemma abortedI:
  "\<not> presence_query c \<Longrightarrow> clean pre \<Longrightarrow>
   aborted n (Stop (Exit 1)) (pre @ [(n, Call c False), (n, Log LError msg)])"
  unfolding aborted_def by blast

lemma abortedI_rmtree:
  "clean pre \<Longrightarrow> aborted n (Stop (Raise ''OSError'')) (pre @ [(n, Rmtree p False)])"
  unfolding aborted_def by blast

lemma aborted_Stop: "aborted n r ev \<Longrightarrow> r = Stop (Exit 1) \<or> r = Stop (Raise ''OSError'')"
  by (auto simp: aborted_def)

lemma aborted_res: "aborted n (Stop h :: 'a res) ev = aborted n (Stop h :: 'b res) ev"
  by (simp add: aborted_def)

lemma frag_ret: "frag n (ret a)"
  by (rule fragI) (auto simp: ret_def)

lemma frag_halt: "frag n (halt_with h)"
  by (rule fragI) (auto simp: halt_with_def)

lemma frag_log: "frag n (log n l msg)"
  by (rule fragI) (auto simp: log_def)

lemma frag_bnd:
  assumes m: "frag n m" and f: "\<And>a. frag n (f a)"
  shows "frag n (bnd m f)"
proof (rule fragI)
  fix s r s' assume run: "bnd m f s = (r, s')"
  obtain r1 s1 where m1: "m s = (r1, s1)" by (cases "m s")
  from fragD[OF m m1] obtain ev1 where e1: "trace s1 = trace s @ ev1"
    "\<forall>e\<in>set ev1. fst e = n \<and> snd e \<noteq> ReadStatus n" "clean ev1 \<or> aborted n r1 ev1" by blast
  show "(\<exists>ev. trace s' = trace s @ ev \<and> (\<forall>e\<in>set ev. fst e = n \<and> snd e \<noteq> ReadStatus n) \<and>
        (clean ev \<or> aborted n r ev))"
  proof (cases r1)
    case (Ret a)
    with run m1 have f1: "f a s1 = (r, s')" by (simp add: bnd_def)
    from e1(3) Ret have c1: "clean ev1" by (auto dest: aborted_Stop)
    from fragD[OF f f1] obtain ev2 where e2: "trace s' = trace s1 @ ev2"
      "\<forall>e\<in>set ev2. fst e = n \<and> snd e \<noteq> ReadStatus n" "clean ev2 \<or> aborted n r ev2" by blast
    have "clean (ev1 @ ev2) \<or> aborted n r (ev1 @ ev2)"
      using c1 e2(3) aborted_append[OF c1] by auto
    with e1 e2 show ?thesis by (intro conjI exI[of _ "ev1 @ ev2"]) auto
  next
    case (Stop h)
    with run m1 have "r = Stop h" "s' = s1" by (auto simp: bnd_def)
    with e1 Stop show ?thesis using aborted_res by (intro conjI exI[of _ ev1]) auto
  qed
qed

lemma frag_if: "frag n a \<Longrightarrow> frag n b \<Longrightarrow> frag n (if c then a else b)"
  by simp

lemma frag_query:
  assumes "presence_query c" "\<And>ok out. frag n (f ok out)"
  shows "frag n (bnd (subprocess sys n c) (\<lambda>(ok, out). f ok out))"
proof (rule frag_bnd)
  show "frag n (subprocess sys n c)" using assms(1)
    by (intro fragI) (auto simp: subprocess_def split: prod.splits)
qed (auto intro: assms)

lemma frag_fail: "frag n (bnd (log n l msg) (\<lambda>u. halt_with h))"
  by (intro frag_bnd frag_log frag_halt)

lemma frag_must:
  assumes f: "\<And>out. frag n (f out)"
  shows "frag n (bnd (subprocess sys n c) (\<lambda>(ok, out).
            if ok then f out else bnd (log n LError msg) (\<lambda>u. halt_with (Exit 1))))"
proof (rule fragI)
  fix s r s'
  assume run: "bnd (subprocess sys n c) (\<lambda>(ok, out).
            if ok then f out else bnd (log n LError msg) (\<lambda>u. halt_with (Exit 1))) s = (r, s')"
  obtain ok out w' where sh: "shell sys c (world s) = ((ok, out), w')"
    by (metis surj_pair)
  let ?s1 = "emit n (Call c ok) (s\<lparr>world := w'\<rparr>)"
  show "(\<exists>ev. trace s' = trace s @ ev \<and> (\<forall>e\<in>set ev. fst e = n \<and> snd e \<noteq> ReadStatus n) \<and>
        (clean ev \<or> aborted n r ev))"
  proof (cases ok)
    case True
    with run sh have f1: "f out ?s1 = (r, s')" by (simp add: bnd_def subprocess_def)
    from fragD[OF f f1] obtain ev2 where e2: "trace s' = trace ?s1 @ ev2"
      "\<forall>e\<in>set ev2. fst e = n \<and> snd e \<noteq> ReadStatus n" "clean ev2 \<or> aborted n r ev2" by blast
    have c1: "clean [(n, Call c ok)]" using True by simp
    have "clean ((n, Call c ok) # ev2) \<or> aborted n r ((n, Call c ok) # ev2)"
      using e2(3) aborted_append[OF c1, of n r ev2] True by auto
    with e2 show ?thesis by (intro conjI exI[of _ "(n, Call c ok) # ev2"]) auto
  next
    case False
    with run sh have r: "r = Stop (Exit 1)" "s' = emit n (Log LError msg) ?s1"
      by (auto simp: bnd_def subprocess_def log_def halt_with_def)
    show ?thesis
    proof (cases "presence_query c")
      case True
      with r False show ?thesis
        by (intro conjI exI[of _ "[(n, Call c False), (n, Log LError msg)]"]) auto
    next
      case nq: False
      have "aborted n r [(n, Call c False), (n, Log LError msg)]"
        using abortedI[OF nq, of "[]" n msg] r by simp
      with r False show ?thesis
        by (intro conjI exI[of _ "[(n, Call c False), (n, Log LError msg)]"]) auto
    qed
  qed
qed

lemma frag_must':
  assumes f: "\<And>out. frag n (f out)"
  shows "frag n (bnd (subprocess sys n c) (\<lambda>(ok, out).
            if \<not> ok then bnd (log n LError msg) (\<lambda>u. halt_with (Exit 1)) else f out))"
proof -
  have "(\<lambda>(ok, out). if \<not> ok then bnd (log n LError msg) (\<lambda>u. halt_with (Exit 1)) else f out)
      = (\<lambda>(ok, out). if ok then f out else bnd (log n LError msg) (\<lambda>u. halt_with (Exit 1)))"
    by auto
  then show ?thesis using frag_must[OF f] by simp
qed

subsection \<open>The loops and helpers of the stages\<close>

lemma frag_prims:
  "frag n (os_geteuid sys n)" "frag n (platform_dist sys n)" "frag n (os_path_exists sys n p)"
  "frag n (os_path_isdir sys n p)" "frag n (os_path_islink sys n p)"
  by (rule fragI; auto simp: os_geteuid_def platform_dist_def os_path_exists_def os_path_isdir_def
       os_path_islink_def Let_def)+

lemma frag_rmtree: "frag n (shutil_rmtree sys n p)"
proof (rule fragI)
  fix s r s' assume run: "shutil_rmtree sys n p s = (r, s')"
  obtain ok w' where rm: "rmtree_at sys p (world s) = (ok, w')" by (cases "rmtree_at sys p (world s)")
  show "\<exists>ev. trace s' = trace s @ ev \<and> (\<forall>e\<in>set ev. fst e = n \<and> snd e \<noteq> ReadStatus n) \<and>
        (clean ev \<or> aborted n r ev)"
  proof (cases ok)
    case True
    with run rm show ?thesis
      by (intro exI[of _ "[(n, Rmtree p True)]"]) (auto simp: shutil_rmtree_def)
  next
    case False
    with run rm have r: "r = Stop (Raise ''OSError'')" "trace s' = trace s @ [(n, Rmtree p False)]"
      by (auto simp: shutil_rmtree_def)
    have "aborted n r [(n, Rmtree p False)]"
      using abortedI_rmtree[of "[]" n p] r(1) by simp
    with r(2) show ?thesis by (intro exI[of _ "[(n, Rmtree p False)]"]) simp
  qed
qed

lemma frag_get: "k \<noteq> n \<Longrightarrow> frag n (get_stage_status n k)"
  by (rule fragI) (auto simp: get_stage_status_def Let_def split: status_file.splits json.splits)

lemma frag_erase_pkgs:
  "\<forall>p\<in>set ps. presence_query (''rpm -q '' @ p @ '' &> /dev/null'') \<Longrightarrow>
   frag n (erase_pkgs sys n ps)"
proof (induction ps)
  case Nil
  show ?case by (simp add: frag_ret)
next
  case (Cons p ps)
  then have IH: "frag n (erase_pkgs sys n ps)" by simp
  from Cons.prems have q: "presence_query (''rpm -q '' @ p @ '' &> /dev/null'')" by simp
  show ?case
    unfolding erase_pkgs.simps
    by (intro frag_query[OF q] frag_if frag_bnd frag_log frag_must IH)
qed

lemma frag_remove_dirs: "frag n (remove_dirs sys n ds)"
proof (induction ds)
  case Nil
  show ?case by (simp add: frag_ret)
next
  case (Cons d ds)
  show ?case
    unfolding remove_dirs.simps
    by (intro frag_bnd frag_if frag_prims frag_rmtree frag_ret frag_log Cons.IH)
qed

lemma frag_install_pkgs: "frag n (install_pkgs sys n ps)"
proof (induction ps)
  case Nil
  show ?case by (simp add: frag_ret)
next
  case (Cons p ps)
  obtain a b where p: "p = (a, b)" by (cases p)
  show ?case
    unfolding p install_pkgs.simps
    by (intro frag_bnd frag_log frag_must Cons.IH)
qed

lemma frag_scan_pkgs: "frag n (scan_pkgs n ls acc)"
proof (induction ls arbitrary: acc)
  case Nil
  show ?case by (simp add: frag_ret)
next
  case (Cons l ls)
  show ?case
    unfolding scan_pkgs.simps
    by (auto split: list.splits intro!: frag_bnd frag_log frag_halt Cons.IH)
qed

lemma frag_get_pkgs: "frag n (get_pkgs_related_to_secure_boot sys n)"
  unfolding get_pkgs_related_to_secure_boot_def
  by (intro frag_must' frag_scan_pkgs)

lemma frag_get_kernel: "frag n (get_kernel_pkg_name_for_default_boot_record sys n)"
  unfolding get_kernel_pkg_name_for_default_boot_record_def Let_def
  by (intro frag_must' frag_must') (auto split: list.splits intro!: frag_bnd frag_log frag_halt frag_ret)

lemma frag_reinstall_pkgs: "frag n (reinstall_pkgs sys n ps)"
proof (induction ps)
  case Nil
  show ?case by (simp add: frag_ret)
next
  case (Cons p ps)
  obtain a b where p: "p = (a, b)" by (cases p)
  show ?case
    unfolding p reinstall_pkgs.simps
    by (intro frag_if frag_bnd frag_log frag_must Cons.IH)
qed

lemma frag_get_os: "frag n (get_os_version_and_name sys n)"
  unfolding get_os_version_and_name_def
  by (auto split: sum.splits intro!: frag_bnd frag_prims frag_halt frag_ret)

lemma frag_set: "frag n (set_successful_stage_status n k)"
  by (rule fragI)
     (auto simp: set_successful_stage_status_def Let_def split: status_file.splits json.splits)

subsection \<open>Pieces that leave the status file alone\<close>

lemma keeps_bnd:
  assumes "keeps m" "\<And>a. keeps (f a)"
  shows "keeps (bnd m f)"
  unfolding keeps_def
proof
  fix s
  obtain r1 s1 where m1: "m s = (r1, s1)" by (cases "m s")
  with assms(1) have s1: "status s1 = status s" unfolding keeps_def by (metis snd_conv)
  show "status (snd (bnd m f s)) = status s"
  proof (cases r1)
    case (Ret a)
    from assms(2)[of a] have "status (snd (f a s1)) = status s1" unfolding keeps_def by blast
    with m1 Ret s1 show ?thesis by (simp add: bnd_def)
  next
    case (Stop h)
    with m1 s1 show ?thesis by (simp add: bnd_def)
  qed
qed

lemma keeps_prims:
  "keeps (ret a)" "keeps (halt_with h)" "keeps (log n l msg)" "keeps (subprocess sys n c)"
  "keeps (os_geteuid sys n)" "keeps (platform_dist sys n)" "keeps (os_path_exists sys n p)"
  "keeps (os_path_isdir sys n p)" "keeps (os_path_islink sys n p)" "keeps (shutil_rmtree sys n p)"
  "keeps (get_stage_status n k)"
  by (auto simp: keeps_def ret_def halt_with_def log_def subprocess_def os_geteuid_def
       platform_dist_def os_path_exists_def os_path_isdir_def get_stage_status_def
       os_path_islink_def shutil_rmtree_def Let_def split: prod.splits status_file.splits json.splits)

lemma keeps_split: "(\<And>a b. keeps (f a b)) \<Longrightarrow> keeps (case_prod f p)"
  by (cases p) simp

lemma keeps_if: "keeps a \<Longrightarrow> keeps b \<Longrightarrow> keeps (if c then a else b)"
  by simp

lemmas keeps_intros = keeps_bnd keeps_prims keeps_split keeps_if

lemma keeps_erase_pkgs: "keeps (erase_pkgs sys n ps)"
  by (induction ps) (auto intro!: keeps_intros)

lemma keeps_remove_dirs: "keeps (remove_dirs sys n ps)"
  by (induction ps) (auto intro!: keeps_intros)

lemma keeps_install_pkgs: "keeps (install_pkgs sys n ps)"
  by (induction ps) (auto intro!: keeps_intros)

lemma keeps_reinstall_pkgs: "keeps (reinstall_pkgs sys n ps)"
  by (induction ps) (auto intro!: keeps_intros)

lemma keeps_scan_pkgs: "keeps (scan_pkgs n ls acc)"
  by (induction ls arbitrary: acc) (auto intro!: keeps_intros split: list.splits)

lemma keeps_get_pkgs: "keeps (get_pkgs_related_to_secure_boot sys n)"
  unfolding get_pkgs_related_to_secure_boot_def
  by (auto intro!: keeps_intros keeps_scan_pkgs)

lemma keeps_get_kernel: "keeps (get_kernel_pkg_name_for_default_boot_record sys n)"
  unfolding get_kernel_pkg_name_for_default_boot_record_def Let_def
  by (auto intro!: keeps_intros split: list.splits)

lemma keeps_get_os: "keeps (get_os_version_and_name sys n)"
  unfolding get_os_version_and_name_def
  by (auto intro!: keeps_intros split: sum.splits)

lemmas keeps_all = keeps_intros keeps_erase_pkgs keeps_remove_dirs keeps_install_pkgs
  keeps_reinstall_pkgs keeps_get_pkgs keeps_get_kernel keeps_get_os

subsection \<open>Pieces that end by setting the key\<close>

lemma readable_cases: "readable f \<longleftrightarrow> f = NoFile \<or> (\<exists>kvs. f = Doc (JObj kvs))"
  by (cases f rule: readable.cases) auto

lemma set_readable:
  "readable (status s) \<Longrightarrow>
   set_successful_stage_status who k s =
     (Ret (), (emit who (WriteStatus k) s)\<lparr>status := mark k (status s)\<rparr>)"
  by (auto simp: readable_cases set_successful_stage_status_def mark_def)

lemma get_readable:
  "readable (status s) \<Longrightarrow>
   get_stage_status who k s =
     (Ret (case stored (status s) k of None \<Rightarrow> JBool False | Some v \<Rightarrow> v),
      emit who (ReadStatus k) s)"
  by (auto simp: readable_cases get_stage_status_def)

lemma get_unreadable:
  "\<not> readable (status s) \<Longrightarrow>
   \<exists>e. get_stage_status who k s = (Stop (Raise e), emit who (ReadStatus k) s)"
  by (cases "status s" rule: readable.cases) (auto simp: get_stage_status_def)

lemma readable_mark [simp]: "readable f \<Longrightarrow> readable (mark k f)"
  by (auto simp: readable_cases mark_def)

lemma stored_mark:
  "readable f \<Longrightarrow> stored (mark k f) k' = (if k' = k then Some (JBool True) else stored f k')"
  by (auto simp: readable_cases mark_def update_conv')

lemma flag_mark: "readable f \<Longrightarrow> flag (mark k f) k' = (k' = k \<or> flag f k')"
  by (simp add: flag_def stored_mark)

lemma flag_readable: "flag f k \<Longrightarrow> readable f"
  by (cases f rule: readable.cases) (auto simp: flag_def)

lemma marks_set: "marks n (set_successful_stage_status who n)"
  by (simp add: marks_def set_readable)

lemma marks_fail: "marks n (bnd (log who l msg) (\<lambda>u. halt_with h))"
  by (simp add: marks_def bnd_def log_def halt_with_def)

lemma marks_halt: "marks n (halt_with h)"
  by (simp add: marks_def halt_with_def)

lemma marks_bnd:
  assumes "keeps m" "\<And>a. marks n (f a)"
  shows "marks n (bnd m f)"
  unfolding marks_def
proof (intro allI impI)
  fix s :: "'a state"
  assume rd: "readable (status s)"
  obtain r1 s1 where m1: "m s = (r1, s1)" by (cases "m s")
  with assms(1) have s1: "status s1 = status s" unfolding keeps_def by (metis snd_conv)
  show "status (snd (bnd m f s)) =
          (if fst (bnd m f s) = Ret () then mark n (status s) else status s)"
  proof (cases r1)
    case (Ret a)
    from assms(2)[of a] rd s1 have "status (snd (f a s1)) =
          (if fst (f a s1) = Ret () then mark n (status s1) else status s1)"
      unfolding marks_def by simp
    with m1 Ret s1 show ?thesis by (simp add: bnd_def)
  next
    case (Stop h)
    with m1 s1 show ?thesis by (simp add: bnd_def)
  qed
qed

lemma marks_split: "(\<And>a b. marks n (f a b)) \<Longrightarrow> marks n (case_prod f p)"
  by (cases p) simp

lemma marks_if: "marks n a \<Longrightarrow> marks n b \<Longrightarrow> marks n (if c then a else b)"
  by simp

lemmas marks_intros = marks_fail marks_set marks_halt marks_split marks_if marks_bnd

subsection \<open>Pieces that leave an event\<close>

lemma emits_prims:
  "emits (log n l msg)" "emits (subprocess sys n c)" "emits (platform_dist sys n)"
  "emits (set_successful_stage_status n k)"
  by (auto simp: emits_def log_def subprocess_def platform_dist_def set_successful_stage_status_def
       Let_def split: prod.splits status_file.splits json.splits)

lemma emits_bnd:
  assumes m: "emits m" and f: "\<And>a. frag n (f a)"
  shows "emits (bnd m f)"
  unfolding emits_def
proof
  fix s
  obtain r1 s1 where m1: "m s = (r1, s1)" by (cases "m s")
  from m obtain ev1 where ev1: "ev1 \<noteq> []" "trace (snd (m s)) = trace s @ ev1"
    unfolding emits_def by blast
  show "\<exists>ev. ev \<noteq> [] \<and> trace (snd (bnd m f s)) = trace s @ ev"
  proof (cases r1)
    case (Ret a)
    obtain r2 s2 where f1: "f a s1 = (r2, s2)" by (cases "f a s1")
    from fragD[OF f f1] obtain ev2 where "trace s2 = trace s1 @ ev2" by blast
    with ev1 m1 have "trace s2 = trace s @ (ev1 @ ev2)" "ev1 @ ev2 \<noteq> []" by simp_all
    moreover have "bnd m f s = (r2, s2)" using m1 Ret f1 by (simp add: bnd_def)
    ultimately show ?thesis by (metis snd_conv)
  next
    case (Stop h)
    with m1 have "bnd m f s = (Stop h, s1)" by (simp add: bnd_def)
    with ev1 m1 show ?thesis by auto
  qed
qed

section \<open>The steps of the orchestrator\<close>

lemma get_truthy:
  "readable (status s) \<Longrightarrow>
   get_stage_status who k s = (Ret v, s') \<Longrightarrow> truthy v = flag (status s) k"
  by (auto simp: get_readable flag_def split: option.splits)

lemma aborted_Cons: "\<not> failed_call e \<Longrightarrow> aborted n r ev \<Longrightarrow> aborted n r (e # ev)"
  using aborted_append[of "[e]" n r ev] by simp

lemma step_stage:
  assumes fr: "frag n body" and mk: "marks n body" and em: "emits body"
    and sn: "n \<in> set stage_names"
  shows "step n (bnd (get_stage_status n n) (\<lambda>d. if truthy d then ret () else body))"
    (is "step n ?m")
  unfolding step_def
proof
  fix s :: "'a state"
  let ?s1 = "emit n (ReadStatus n) s"
  let ?P = "\<lambda>r s'. (readable (status s) \<longrightarrow> readable (status s')) \<and>
     (\<forall>k. flag (status s) k \<longrightarrow> flag (status s') k) \<and>
     (\<forall>k. k \<noteq> n \<longrightarrow> k \<noteq> ''completed'' \<longrightarrow> flag (status s') k \<longrightarrow> flag (status s) k) \<and>
     (\<exists>ev. trace s' = trace s @ ev \<and> (\<forall>e\<in>set ev. fst e = n) \<and>
        (n \<in> set stage_names \<longrightarrow> (n, ReadStatus n) \<in> set ev) \<and>
        (n \<in> set stage_names \<longrightarrow> flag (status s) n \<longrightarrow> (\<forall>e\<in>set ev. snd e = ReadStatus n)) \<and>
        (readable (status s) \<longrightarrow> \<not> flag (status s) n \<longrightarrow> n \<in> set stage_names \<longrightarrow>
           (\<exists>a. a \<noteq> ReadStatus n \<and> (n, a) \<in> set ev)) \<and>
        (clean ev \<or> (aborted n r ev \<and> \<not> flag (status s') n \<and> n \<in> set stage_names)))"
  have "?P (fst (?m s)) (snd (?m s))"
  proof (cases "readable (status s)")
    case False
    then obtain e where g: "get_stage_status n n s = (Stop (Raise e), ?s1)"
      using get_unreadable by blast
    have nf: "\<not> flag (status s) k" for k using False flag_readable by blast
    have run: "?m s = (Stop (Raise e), ?s1)" using g by (simp add: bnd_def)
    show ?thesis unfolding run using False nf
      by (intro conjI) (auto intro!: exI[of _ "[(n, ReadStatus n)]"])
  next
    case rd: True
    obtain v where g: "get_stage_status n n s = (Ret v, ?s1)"
      using get_readable[OF rd] by blast
    from get_truthy[OF rd g] have tv: "truthy v = flag (status s) n" .
    show ?thesis
    proof (cases "flag (status s) n")
      case True
      with g tv have run: "?m s = (Ret (), ?s1)" by (simp add: bnd_def ret_def)
      show ?thesis unfolding run using True rd
        by (intro conjI) (auto intro!: exI[of _ "[(n, ReadStatus n)]"])
    next
      case nf: False
      obtain r s' where b: "body ?s1 = (r, s')" by (cases "body ?s1")
      with g tv nf have run: "?m s = (r, s')" by (simp add: bnd_def)
      from fragD[OF fr b] obtain ev where ev: "trace s' = trace ?s1 @ ev"
        "\<forall>e\<in>set ev. fst e = n \<and> snd e \<noteq> ReadStatus n" "clean ev \<or> aborted n r ev" by blast
      from em obtain ev' where "ev' \<noteq> []" "trace (snd (body ?s1)) = trace ?s1 @ ev'"
        unfolding emits_def by blast
      with b ev(1) have ne: "ev \<noteq> []" by simp
      from mk rd b have st: "status s' = (if r = Ret () then mark n (status s) else status s)"
        unfolding marks_def by (metis emit_simps(1) fst_conv snd_conv)
      have tr: "trace s' = trace s @ ((n, ReadStatus n) # ev)" using ev(1) by simp
      from ne obtain e0 where e0: "e0 \<in> set ev" by (cases ev) auto
      with ev(2) have "(n, snd e0) \<in> set ev" "snd e0 \<noteq> ReadStatus n"
        by (metis prod.collapse)+
      then have ex: "\<exists>a. a \<noteq> ReadStatus n \<and> (n, a) \<in> set ((n, ReadStatus n) # ev)" by auto
      have cl: "clean ((n, ReadStatus n) # ev) \<or>
            (aborted n r ((n, ReadStatus n) # ev) \<and> \<not> flag (status s') n \<and>
             n \<in> set stage_names)"
      proof (cases "clean ev")
        case True
        then show ?thesis by simp
      next
        case False
        with ev(3) have ab: "aborted n r ev" by simp
        then have "r \<noteq> Ret ()" by (auto dest: aborted_Stop)
        with st nf have "\<not> flag (status s') n" by simp
        with ab sn show ?thesis by (simp add: aborted_Cons)
      qed
      have all: "\<forall>e\<in>set ((n, ReadStatus n) # ev). fst e = n" using ev(2) by simp
      show ?thesis unfolding run fst_conv snd_conv
      proof (intro conjI)
        show "\<exists>eva. trace s' = trace s @ eva \<and> (\<forall>e\<in>set eva. fst e = n) \<and>
          (n \<in> set stage_names \<longrightarrow> (n, ReadStatus n) \<in> set eva) \<and>
          (n \<in> set stage_names \<longrightarrow> flag (status s) n \<longrightarrow> (\<forall>e\<in>set eva. snd e = ReadStatus n)) \<and>
          (readable (status s) \<longrightarrow> \<not> flag (status s) n \<longrightarrow> n \<in> set stage_names \<longrightarrow>
             (\<exists>a. a \<noteq> ReadStatus n \<and> (n, a) \<in> set eva)) \<and>
          (clean eva \<or> (aborted n r eva \<and> \<not> flag (status s') n \<and> n \<in> set stage_names))"
          using tr all nf ex cl by (intro exI[of _ "(n, ReadStatus n) # ev"]) auto
      qed (use st rd in \<open>auto simp: flag_mark\<close>)
    qed
  qed
  then show "(readable (status s) \<longrightarrow> readable (status (snd (?m s)))) \<and>
     (\<forall>k. flag (status s) k \<longrightarrow> flag (status (snd (?m s))) k) \<and>
     (\<forall>k. k \<noteq> n \<longrightarrow> k \<noteq> ''completed'' \<longrightarrow> flag (status (snd (?m s))) k \<longrightarrow> flag (status s) k) \<and>
     (\<exists>ev. trace (snd (?m s)) = trace s @ ev \<and> (\<forall>e\<in>set ev. fst e = n) \<and>
        (n \<in> set stage_names \<longrightarrow> (n, ReadStatus n) \<in> set ev) \<and>
        (n \<in> set stage_names \<longrightarrow> flag (status s) n \<longrightarrow> (\<forall>e\<in>set ev. snd e = ReadStatus n)) \<and>
        (readable (status s) \<longrightarrow> \<not> flag (status s) n \<longrightarrow> n \<in> set stage_names \<longrightarrow>
           (\<exists>a. a \<noteq> ReadStatus n \<and> (n, a) \<in> set ev)) \<and>
        (clean ev \<or> (aborted n (fst (?m s)) ev \<and> \<not> flag (status (snd (?m s))) n \<and> n \<in> set stage_names)))" .
qed

lemma step_plain:
  assumes fr: "frag n m" and kp: "keeps m"
    and ne: "\<And>s. fst (m s) \<noteq> Stop (Exit 1) \<and> fst (m s) \<noteq> Stop (Raise ''OSError'')"
    and ns: "n \<notin> set stage_names"
  shows "step n m"
  unfolding step_def
proof
  fix s :: "'a state"
  obtain r s' where b: "m s = (r, s')" by (cases "m s")
  from fragD[OF fr b] obtain ev where ev: "trace s' = trace s @ ev"
    "\<forall>e\<in>set ev. fst e = n \<and> snd e \<noteq> ReadStatus n" "clean ev \<or> aborted n r ev" by blast
  from kp b have st: "status s' = status s" unfolding keeps_def by (metis snd_conv)
  from ne[of s] b have "r \<noteq> Stop (Exit 1)" "r \<noteq> Stop (Raise ''OSError'')" by simp_all
  with ev(3) have cl: "clean ev" by (auto dest: aborted_Stop)
  show "(readable (status s) \<longrightarrow> readable (status (snd (m s)))) \<and>
     (\<forall>k. flag (status s) k \<longrightarrow> flag (status (snd (m s))) k) \<and>
     (\<forall>k. k \<noteq> n \<longrightarrow> k \<noteq> ''completed'' \<longrightarrow> flag (status (snd (m s))) k \<longrightarrow> flag (status s) k) \<and>
     (\<exists>ev. trace (snd (m s)) = trace s @ ev \<and> (\<forall>e\<in>set ev. fst e = n) \<and>
        (n \<in> set stage_names \<longrightarrow> (n, ReadStatus n) \<in> set ev) \<and>
        (n \<in> set stage_names \<longrightarrow> flag (status s) n \<longrightarrow> (\<forall>e\<in>set ev. snd e = ReadStatus n)) \<and>
        (readable (status s) \<longrightarrow> \<not> flag (status s) n \<longrightarrow> n \<in> set stage_names \<longrightarrow>
           (\<exists>a. a \<noteq> ReadStatus n \<and> (n, a) \<in> set ev)) \<and>
        (clean ev \<or> (aborted n (fst (m s)) ev \<and> \<not> flag (status (snd (m s))) n \<and> n \<in> set stage_names)))"
    unfolding b fst_conv snd_conv st using ev(1,2) cl ns
    by (intro conjI exI[of _ ev]) auto
qed

lemma step_set_completed: "step ''main'' (set_successful_stage_status ''main'' ''completed'')"
  unfolding step_def
proof
  fix s :: "'a state"
  let ?m = "set_successful_stage_status ''main'' ''completed'' :: ('a, unit) prog"
  have ns: "''main'' \<notin> set stage_names" by (simp add: stage_names_def)
  show "(readable (status s) \<longrightarrow> readable (status (snd (?m s)))) \<and>
     (\<forall>k. flag (status s) k \<longrightarrow> flag (status (snd (?m s))) k) \<and>
     (\<forall>k. k \<noteq> ''main'' \<longrightarrow> k \<noteq> ''completed'' \<longrightarrow> flag (status (snd (?m s))) k \<longrightarrow> flag (status s) k) \<and>
     (\<exists>ev. trace (snd (?m s)) = trace s @ ev \<and> (\<forall>e\<in>set ev. fst e = ''main'') \<and>
        (''main'' \<in> set stage_names \<longrightarrow> (''main'', ReadStatus ''main'') \<in> set ev) \<and>
        (''main'' \<in> set stage_names \<longrightarrow> flag (status s) ''main'' \<longrightarrow> (\<forall>e\<in>set ev. snd e = ReadStatus ''main'')) \<and>
        (readable (status s) \<longrightarrow> \<not> flag (status s) ''main'' \<longrightarrow> ''main'' \<in> set stage_names \<longrightarrow>
           (\<exists>a. a \<noteq> ReadStatus ''main'' \<and> (''main'', a) \<in> set ev)) \<and>
        (clean ev \<or> (aborted ''main'' (fst (?m s)) ev \<and> \<not> flag (status (snd (?m s))) ''main'' \<and> ''main'' \<in> set stage_names)))"
  proof (cases "readable (status s)")
    case True
    show ?thesis unfolding set_readable[OF True] fst_conv snd_conv using True ns
      by (intro conjI exI[of _ "[(''main'', WriteStatus ''completed'')]"]) (auto simp: flag_mark)
  next
    case False
    then have nf: "\<not> flag (status s) k" for k using flag_readable by blast
    from False have "snd (?m s) = emit ''main'' (WriteStatus ''completed'') s"
      by (cases "status s" rule: readable.cases) (auto simp: set_successful_stage_status_def)
    then show ?thesis using False ns nf
      by (intro conjI exI[of _ "[(''main'', WriteStatus ''completed'')]"]) auto
  qed
qed

subsection \<open>The checks, the probes and the stages\<close>

lemma step_is_conversion_completed: "step ''is_conversion_completed'' is_conversion_completed"
proof (rule step_plain)
  show "frag ''is_conversion_completed'' (is_conversion_completed :: ('a, unit) prog)"
    unfolding is_conversion_completed_def Let_def
    by (intro frag_bnd frag_if frag_get frag_log frag_halt frag_ret) simp
  show "keeps (is_conversion_completed :: ('a, unit) prog)"
    unfolding is_conversion_completed_def Let_def by (intro keeps_intros)
  show "fst ((is_conversion_completed :: ('a, unit) prog) s) \<noteq> Stop (Exit 1) \<and>
      fst ((is_conversion_completed :: ('a, unit) prog) s) \<noteq> Stop (Raise ''OSError'')" for s
    unfolding is_conversion_completed_def Let_def
    by (auto simp: bnd_def get_stage_status_def log_def halt_with_def ret_def Let_def
          split: status_file.splits json.splits prod.splits res.splits)
qed (simp add: stage_names_def)

lemma step_is_run_under_root: "step ''is_run_under_root'' (is_run_under_root sys)"
proof (rule step_plain)
  show "frag ''is_run_under_root'' (is_run_under_root sys)"
    unfolding is_run_under_root_def Let_def
    by (intro frag_bnd frag_if frag_prims frag_log frag_halt frag_ret)
  show "keeps (is_run_under_root sys)"
    unfolding is_run_under_root_def Let_def by (intro keeps_intros)
  show "fst (is_run_under_root sys s) \<noteq> Stop (Exit 1) \<and>
      fst (is_run_under_root sys s) \<noteq> Stop (Raise ''OSError'')" for s
    unfolding is_run_under_root_def Let_def
    by (auto simp: bnd_def os_geteuid_def log_def halt_with_def ret_def Let_def)
qed (simp add: stage_names_def)

lemma is_katello_satelite_returns: "\<exists>b. fst (is_katello_satelite sys s) = Ret b"
  unfolding is_katello_satelite_def Let_def
  by (auto simp: bnd_def subprocess_def ret_def split: prod.splits)

lemma step_is_katello_satelite: "step ''is_katello_satelite'' (is_katello_satelite sys)"
proof (rule step_plain)
  show "frag ''is_katello_satelite'' (is_katello_satelite sys)"
    unfolding is_katello_satelite_def Let_def
    by (intro frag_query frag_if frag_ret) (simp_all add: presence_query_def)
  show "keeps (is_katello_satelite sys)"
    unfolding is_katello_satelite_def Let_def by (intro keeps_intros)
  show "fst (is_katello_satelite sys s) \<noteq> Stop (Exit 1) \<and>
      fst (is_katello_satelite sys s) \<noteq> Stop (Raise ''OSError'')" for s
    using is_katello_satelite_returns[of sys s] by auto
qed (simp add: stage_names_def)

lemma step_is_efi_system: "step ''is_efi_system'' (is_efi_system sys)"
proof (rule step_plain)
  show "frag ''is_efi_system'' (is_efi_system sys)"
    unfolding is_efi_system_def by (rule frag_prims)
  show "keeps (is_efi_system sys)"
    unfolding is_efi_system_def by (intro keeps_intros)
  show "fst (is_efi_system sys s) \<noteq> Stop (Exit 1) \<and>
      fst (is_efi_system sys s) \<noteq> Stop (Raise ''OSError'')" for s
    unfolding is_efi_system_def by (simp add: os_path_exists_def Let_def)
qed (simp add: stage_names_def)

lemma step_log_main: "step ''main'' (log ''main'' l msg)"
  by (rule step_plain) (auto intro: frag_log keeps_intros simp: log_def stage_names_def)

lemma emits_install_pkgs_set:
  "emits (bnd (install_pkgs sys n ps) (\<lambda>u. set_successful_stage_status n k))"
proof (cases ps)
  case Nil
  have "bnd (install_pkgs sys n []) (\<lambda>u. set_successful_stage_status n k)
        = set_successful_stage_status n k"
    by (rule ext) (simp add: bnd_def ret_def)
  then show ?thesis using Nil emits_prims(4) by simp
next
  case (Cons p ps')
  obtain a b where p: "p = (a, b)" by (cases p)
  have e: "emits (install_pkgs sys n ((a, b) # ps'))"
    unfolding install_pkgs.simps
    by (intro emits_bnd[where n = n] emits_prims frag_bnd frag_must frag_log frag_install_pkgs)
  show ?thesis unfolding Cons p
    by (intro emits_bnd[where n = n] e frag_set)
qed

lemma step_check_supported_os: "step ''check_supported_os'' (check_supported_os sys)"
  unfolding check_supported_os_def Let_def
proof (rule step_stage)
  let ?n = "''check_supported_os''"
  let ?k = \<open>\<lambda>(major_version, minor_version, os_name).
     if major_version \<noteq> SUPPORTED_MAJOR_VERSION_OS
     then bnd (log ?n LInfo
                 ''Current major version "%s" is not supported by this script.'') (\<lambda>u.
          halt_with (Exit 0))
     else if os_name \<noteq> SUPPORTED_NAME_OS
     then bnd (log ?n LInfo ''Current OS "%s" is not supported by this script.'') (\<lambda>u.
          halt_with (Exit 0))
     else set_successful_stage_status ?n ?n\<close>
  have k: "frag ?n (?k a)" for a :: "int \<times> int \<times> string"
    by (cases a) (auto intro!: frag_fail frag_set)
  show "frag ?n (bnd (get_os_version_and_name sys ?n) ?k)"
    by (intro frag_bnd frag_get_os k)
  show "marks ?n (bnd (get_os_version_and_name sys ?n) ?k)"
    by (intro marks_intros keeps_all)
  show "emits (bnd (get_os_version_and_name sys ?n) ?k)"
    unfolding get_os_version_and_name_def
    by (intro emits_bnd[where n = ?n] emits_prims frag_bnd k)
       (auto split: sum.splits intro!: frag_halt frag_ret)
qed (simp add: stage_names_def)

lemma frag_split: "(\<And>a b. frag n (f a b)) \<Longrightarrow> frag n (case_prod f p)"
  by (cases p) simp

lemma frag_subprocess_query: "presence_query c \<Longrightarrow> frag n (subprocess sys n c)"
  by (intro fragI) (auto simp: subprocess_def split: prod.splits)

lemmas frag_tail = frag_split frag_if frag_fail frag_set frag_log frag_ret frag_halt

lemmas frag_body = frag_must frag_must' frag_bnd frag_tail

lemma step_remove_redhat_packages:
  "step ''remove_redhat_packages'' (remove_redhat_packages sys)"
  unfolding remove_redhat_packages_def Let_def
  apply (rule step_stage)
     prefer 4 apply (simp add: stage_names_def)
    apply (intro frag_body frag_erase_pkgs; simp add: presence_query_def)
   apply (intro marks_intros keeps_all)
  apply (intro emits_bnd[where n = "''remove_redhat_packages''"] emits_prims frag_body
      frag_erase_pkgs; simp add: presence_query_def)
  done

lemma step_remove_katello_satellite_packages:
  "step ''remove_katello_satellite_packages'' (remove_katello_satellite_packages sys)"
  unfolding remove_katello_satellite_packages_def Let_def
  apply (rule step_stage)
     prefer 4 apply (simp add: stage_names_def)
    apply (intro frag_body frag_erase_pkgs; simp add: presence_query_def)
   apply (intro marks_intros keeps_all)
  apply (intro emits_bnd[where n = "''remove_katello_satellite_packages''"] emits_prims frag_body
      frag_erase_pkgs; simp add: presence_query_def)
  done

lemma step_remove_not_needed_dirs:
  "step ''remove_not_needed_dirs'' (remove_not_needed_dirs sys)"
  unfolding remove_not_needed_dirs_def Let_def
  apply (rule step_stage)
     prefer 4 apply (simp add: stage_names_def)
    apply (intro frag_body frag_remove_dirs)
   apply (intro marks_intros keeps_all)
  apply (intro emits_bnd[where n = "''remove_not_needed_dirs''"] emits_prims frag_body
      frag_remove_dirs)
  done

lemma step_install_centos_packages:
  "step ''install_centos_packages'' (install_centos_packages sys)"
  unfolding install_centos_packages_def Let_def
  apply (rule step_stage)
     prefer 4 apply (simp add: stage_names_def)
    apply (intro frag_body frag_install_pkgs)
   apply (intro marks_intros keeps_all)
  apply (rule emits_install_pkgs_set)
  done

lemma step_update_the_system: "step ''update_the_system'' (update_the_system sys)"
  unfolding update_the_system_def Let_def
  apply (rule step_stage)
     prefer 4 apply (simp add: stage_names_def)
    apply (intro frag_body)
   apply (intro marks_intros keeps_all)
  apply (intro emits_bnd[where n = "''update_the_system''"] emits_prims frag_body)
  done

lemma step_synchronization_of_distribution:
  "step ''synchronization_of_distribution'' (synchronization_of_distribution sys)"
  unfolding synchronization_of_distribution_def Let_def
  apply (rule step_stage)
     prefer 4 apply (simp add: stage_names_def)
    apply (intro frag_body)
   apply (intro marks_intros keeps_all)
  apply (intro emits_bnd[where n = "''synchronization_of_distribution''"] emits_prims frag_body)
  done

lemma step_recreate_grub_config:
  "step ''recreate_grub_config'' (recreate_grub_config sys grub_config_path)"
  unfolding recreate_grub_config_def Let_def
  apply (rule step_stage)
     prefer 4 apply (simp add: stage_names_def)
    apply (intro frag_body)
   apply (intro marks_intros keeps_all)
  apply (intro emits_bnd[where n = "''recreate_grub_config''"] emits_prims frag_body)
  done

lemma step_reinstall_secure_boot_related_packages:
  "step ''reinstall_secure_boot_related_packages'' (reinstall_secure_boot_related_packages sys)"
  unfolding reinstall_secure_boot_related_packages_def Let_def
  apply (rule step_stage)
     prefer 4 apply (simp add: stage_names_def)
    apply (intro frag_bnd frag_get_pkgs frag_get_kernel frag_reinstall_pkgs frag_set)
   apply (intro marks_intros keeps_all)
  apply (unfold get_pkgs_related_to_secure_boot_def)
  apply (intro emits_bnd[where n = "''reinstall_secure_boot_related_packages''"] emits_prims
      frag_bnd frag_get_kernel frag_reinstall_pkgs frag_set frag_scan_pkgs frag_tail)
  done

lemma step_add_boot_record_by_efibootmgr:
  "step ''add_boot_record_by_efibootmgr'' (add_boot_record_by_efibootmgr sys)"
  unfolding add_boot_record_by_efibootmgr_def Let_def
  apply (rule step_stage)
     prefer 4 apply (simp add: stage_names_def)
    apply (intro frag_body)
   apply (intro marks_intros keeps_all)
  apply (intro emits_bnd[where n = "''add_boot_record_by_efibootmgr''"] emits_prims frag_body)
  done

lemma step_check_and_set_default_grub_record:
  "step ''check_and_set_default_grub_record'' (check_and_set_default_grub_record sys)"
  unfolding check_and_set_default_grub_record_def Let_def
  apply (rule step_stage)
     prefer 4 apply (simp add: stage_names_def)
    apply (rule frag_query)
     apply (simp add: presence_query_def)
    apply (intro frag_must frag_if frag_set frag_bnd frag_log)
   apply (intro marks_intros keeps_all)
  apply (intro emits_bnd[where n = "''check_and_set_default_grub_record''"] emits_prims
      frag_split frag_must frag_if frag_set frag_bnd frag_log)
  done

section \<open>Invariants of a run\<close>

lemma hoareI:
  assumes "\<And>s a s'. P s \<Longrightarrow> m s = (Ret a, s') \<Longrightarrow> Q a s'"
    and "\<And>s h s'. P s \<Longrightarrow> m s = (Stop h, s') \<Longrightarrow> E h s'"
  shows "hoare P m Q E"
  unfolding hoare_def
proof (intro allI impI)
  fix s assume P: "P s"
  obtain r s' where m: "m s = (r, s')" by (cases "m s")
  show "case fst (m s) of Ret a \<Rightarrow> Q a (snd (m s)) | Stop h \<Rightarrow> E h (snd (m s))"
    using assms(1)[OF P, of _ s'] assms(2)[OF P, of _ s'] m by (cases r) auto
qed

lemma hoare_RetD: "hoare P m Q E \<Longrightarrow> P s \<Longrightarrow> m s = (Ret a, s') \<Longrightarrow> Q a s'"
  unfolding hoare_def by (metis fst_conv snd_conv res.simps(5))

lemma hoare_StopD: "hoare P m Q E \<Longrightarrow> P s \<Longrightarrow> m s = (Stop h, s') \<Longrightarrow> E h s'"
  unfolding hoare_def by (metis fst_conv snd_conv res.simps(6))

lemma hoare_bnd:
  assumes m: "hoare P m R E" and f: "\<And>a. hoare (R a) (f a) Q E"
  shows "hoare P (bnd m f) Q E"
proof (rule hoareI)
  fix s a s' assume P: "P s" and run: "bnd m f s = (Ret a, s')"
  obtain r1 s1 where m1: "m s = (r1, s1)" by (cases "m s")
  with run obtain b where b: "r1 = Ret b" "f b s1 = (Ret a, s')"
    by (cases r1) (auto simp: bnd_def)
  from hoare_RetD[OF m P] m1 b have "R b s1" by simp
  from hoare_RetD[OF f this b(2)] show "Q a s'" .
next
  fix s h s' assume P: "P s" and run: "bnd m f s = (Stop h, s')"
  obtain r1 s1 where m1: "m s = (r1, s1)" by (cases "m s")
  show "E h s'"
  proof (cases r1)
    case (Ret b)
    with run m1 have fb: "f b s1 = (Stop h, s')" by (simp add: bnd_def)
    from hoare_RetD[OF m P] m1 Ret have "R b s1" by simp
    from hoare_StopD[OF f this fb] show ?thesis .
  next
    case (Stop h')
    with run m1 have "h' = h" "s1 = s'" by (auto simp: bnd_def)
    with hoare_StopD[OF m P] m1 Stop show ?thesis by simp
  qed
qed

lemma hoare_if:
  "(c \<Longrightarrow> hoare P a Q E) \<Longrightarrow> (\<not> c \<Longrightarrow> hoare P b Q E) \<Longrightarrow> hoare P (if c then a else b) Q E"
  by simp

lemma hoare_ret: "(\<And>s. P s \<Longrightarrow> Q a s) \<Longrightarrow> hoare P (ret a) Q E"
  by (rule hoareI) (auto simp: ret_def)

lemma hoare_weaken:
  assumes "hoare P' m Q' E'" "\<And>s. P s \<Longrightarrow> P' s" "\<And>a s. Q' a s \<Longrightarrow> Q a s"
    "\<And>h s. E' h s \<Longrightarrow> E h s"
  shows "hoare P m Q E"
proof (rule hoareI)
  fix s a s' assume "P s" "m s = (Ret a, s')"
  then show "Q a s'" using hoare_RetD[OF assms(1), of s a s'] assms(2,3) by blast
next
  fix s h s' assume "P s" "m s = (Stop h, s')"
  then show "E h s'" using hoare_StopD[OF assms(1), of s h s'] assms(2,4) by blast
qed

lemma aborted_void: "aborted n (void r) ev = aborted n r ev"
  by (cases r) (auto simp: aborted_def void_def)

lemma step_relI: "step n m \<Longrightarrow> step_rel n s (void (fst (m s))) (snd (m s))"
  unfolding step_def step_rel_def aborted_void by blast

lemma lift:
  assumes st: "step n m" and n: "n \<in> set main_tags"
    and pres: "\<And>n s r s'. step_rel n s r s' \<Longrightarrow> n \<in> set main_tags \<Longrightarrow> I s \<Longrightarrow>
        (case r of Ret u \<Rightarrow> I s' | Stop h \<Rightarrow> E h s')"
  shows "hoare I m (\<lambda>a. I) E"
proof (rule hoareI)
  fix s a s' assume "I s" "m s = (Ret a, s')"
  with pres[OF step_relI[OF st, of s] n] show "I s'" by (simp add: void_def)
next
  fix s h s' assume "I s" "m s = (Stop h, s')"
  with pres[OF step_relI[OF st, of s] n] show "E h s'" by (simp add: void_def)
qed

lemmas steps = step_is_conversion_completed step_is_run_under_root step_check_supported_os
  step_remove_redhat_packages step_remove_not_needed_dirs step_is_katello_satelite
  step_remove_katello_satellite_packages step_install_centos_packages step_update_the_system
  step_synchronization_of_distribution step_is_efi_system step_recreate_grub_config
  step_reinstall_secure_boot_related_packages step_add_boot_record_by_efibootmgr
  step_check_and_set_default_grub_record step_set_completed step_log_main

lemma main_inv:
  assumes pres: "\<And>n s r s'. step_rel n s r s' \<Longrightarrow> n \<in> set main_tags \<Longrightarrow> I s \<Longrightarrow>
        (case r of Ret u \<Rightarrow> I s' | Stop h \<Rightarrow> E h s')"
  shows "hoare I (main sys) (\<lambda>a. I) E"
proof -
  note L = steps[THEN lift, OF _ pres]
  show ?thesis
    unfolding main_def
    by (intro hoare_bnd[where R = "\<lambda>a. I"] hoare_if hoare_ret L)
       (simp_all add: main_tags_def stage_names_def)
qed

section \<open>The status store\<close>


lemma writes_status:
  "readable (status s) \<Longrightarrow> readable (status (writes who ks s)) \<and>
    (\<forall>k. stored (status (writes who ks s)) k =
       (if k \<in> set ks then Some (JBool True) else stored (status s) k))"
proof (induction ks arbitrary: s)
  case Nil
  then show ?case by (simp add: writes_def)
next
  case (Cons a ks)
  let ?s1 = "snd (set_successful_stage_status who a s)"
  have r1: "readable (status ?s1)" using Cons.prems by (simp add: set_readable)
  have w: "writes who (a # ks) s = writes who ks ?s1" by (simp add: writes_def)
  from Cons.IH[OF r1] show ?case unfolding w using Cons.prems
    by (auto simp: set_readable stored_mark)
qed

text \<open>
  Claim C4, status persistence round trip. Provided the status document is absent or
  parses to a JSON object, \<open>set_successful_stage_status X\<close> succeeds and a following
  \<open>get_stage_status X\<close> returns \<open>true\<close>, also in a fresh process (another world and an
  empty trace, the same persisted document); and an identifier \<open>Y\<close> that the document
  does not hold, and that none of the writes in between names, reads as \<open>false\<close>
  without error, with no document at all included. As stated for every prior state
  the claim fails: on a document that \<open>json.load\<close> rejects both calls raise
  (\<open>status_round_trip_counterexample\<close>).
\<close>

theorem status_round_trip:
  assumes "readable (status s)"
  shows "fst (set_successful_stage_status who X s) = Ret () \<and>
    fst (get_stage_status who' X (snd (set_successful_stage_status who X s)\<lparr>world := w', trace := t\<rparr>))
      = Ret (JBool True) \<and>
    (stored (status s) Y = None \<longrightarrow> Y \<notin> set ks \<longrightarrow>
       fst (get_stage_status who'' Y (writes who ks s)) = Ret (JBool False))"
proof (intro conjI impI)
  show "fst (set_successful_stage_status who X s) = Ret ()"
    using assms by (simp add: set_readable)
  show "fst (get_stage_status who' X (snd (set_successful_stage_status who X s)\<lparr>world := w', trace := t\<rparr>))
      = Ret (JBool True)"
    using assms by (simp add: set_readable get_readable stored_mark)
  assume "stored (status s) Y = None" "Y \<notin> set ks"
  with writes_status[OF assms, of who ks]
  show "fst (get_stage_status who'' Y (writes who ks s)) = Ret (JBool False)"
    by (simp add: get_readable)
qed

theorem status_round_trip_witness:
  "readable (status (start () NoFile)) \<and>
   fst (set_successful_stage_status ''main'' ''completed'' (start () NoFile)) = Ret () \<and>
   fst (get_stage_status ''is_conversion_completed'' ''completed''
      (snd (set_successful_stage_status ''main'' ''completed'' (start () NoFile))
         \<lparr>world := (), trace := []\<rparr>)) = Ret (JBool True) \<and>
   stored (status (start () NoFile)) ''update_the_system'' = None \<and>
   ''update_the_system'' \<notin> set [''check_supported_os'', ''remove_redhat_packages''] \<and>
   fst (get_stage_status ''update_the_system'' ''update_the_system''
      (writes ''main'' [''check_supported_os'', ''remove_redhat_packages''] (start () NoFile)))
     = Ret (JBool False)"
  using status_round_trip[where s = "start () NoFile" and who = "''main''" and X = "''completed''"
      and who' = "''is_conversion_completed''" and w' = "()" and t = "[]"
      and Y = "''update_the_system''" and who'' = "''update_the_system''"
      and ks = "[''check_supported_os'', ''remove_redhat_packages'']"]
  by (simp add: start_def)

theorem status_round_trip_counterexample:
  "fst (set_successful_stage_status ''main'' ''completed'' (start () Unparsable))
     = Stop (Raise ''ValueError'') \<and>
   fst (get_stage_status ''is_conversion_completed'' ''completed''
      (snd (set_successful_stage_status ''main'' ''completed'' (start () Unparsable))))
     = Stop (Raise ''ValueError'')"
  by (simp add: set_successful_stage_status_def get_stage_status_def start_def emit_def)

text \<open>
  Claim C8, \<open>get_stage_status\<close> never fails. It holds when the document is absent or
  parses to a JSON object: the call returns the stored value, or \<open>false\<close> when there is
  no document or no such key, and changes nothing but the trace. For any other content
  of the file it raises (\<open>get_stage_status_total_counterexample\<close> is the unparsable
  document).
\<close>

theorem get_stage_status_total:
  "(readable (status s) \<longrightarrow>
      get_stage_status who k s =
        (Ret (case stored (status s) k of None \<Rightarrow> JBool False | Some v \<Rightarrow> v),
         emit who (ReadStatus k) s)) \<and>
   (\<not> readable (status s) \<longrightarrow> (\<exists>e. fst (get_stage_status who k s) = Stop (Raise e)))"
  using get_readable[of s who k] get_unreadable[of s who k] by auto

theorem get_stage_status_total_witness:
  "readable (status (start () NoFile)) \<and>
   get_stage_status ''update_the_system'' ''update_the_system'' (start () NoFile) =
     (Ret (JBool False),
      \<lparr>world = (), status = NoFile,
        trace = [(''update_the_system'', ReadStatus ''update_the_system'')]\<rparr>) \<and>
   \<not> readable (status (start () (Doc (JArr [])))) \<and>
   (\<exists>e. fst (get_stage_status ''update_the_system'' ''update_the_system''
             (start () (Doc (JArr [])))) = Stop (Raise e))"
  using get_stage_status_total[of "start () NoFile" "''update_the_system''" "''update_the_system''"]
    get_stage_status_total[of "start () (Doc (JArr []))" "''update_the_system''" "''update_the_system''"]
  by (simp add: start_def emit_def)

theorem get_stage_status_total_counterexample:
  "fst (get_stage_status ''is_conversion_completed'' ''completed'' (start () Unparsable))
     = Stop (Raise ''ValueError'')"
  by (simp add: get_stage_status_def start_def)

section \<open>The OS identity\<close>

lemma int_of_char_range: "int_of_char c = Some d \<Longrightarrow> 0 \<le> d \<and> d \<le> 9"
  by (auto simp: int_of_char_def split: if_splits)

lemma os_version_and_name_Inr:
  "os_name \<noteq> [] \<Longrightarrow>
   os_version_and_name (os_name, v, x) = Inr (a, b, n) \<longleftrightarrow>
     n = os_name \<and> 3 \<le> length v \<and> int_of_char (v ! 0) = Some a \<and> int_of_char (v ! 2) = Some b"
  by (auto simp: os_version_and_name_def split: option.splits)

lemma os_version_and_name_Inl:
  "os_name \<noteq> [] \<Longrightarrow>
   (\<exists>e. os_version_and_name (os_name, v, x) = Inl e) \<longleftrightarrow>
     length v < 3 \<or> int_of_char (v ! 0) = None \<or> int_of_char (v ! 2) = None"
  by (auto simp: os_version_and_name_def split: option.splits)

lemma get_os_version_and_name_eq:
  "get_os_version_and_name sys who s =
     ((case os_version_and_name (dist sys (world s)) of Inl e \<Rightarrow> Stop (Raise e) | Inr t \<Rightarrow> Ret t),
      emit who PlatformDist s)"
  by (simp add: get_os_version_and_name_def bnd_def platform_dist_def halt_with_def ret_def
      split: sum.splits)

text \<open>
  Claim C10. When \<open>platform.dist()\<close> reports a non-empty name,
  \<open>get_os_version_and_name\<close> returns exactly when the version string has a decimal
  digit at position 0 and at position 2, and then returns those two digits as major and
  minor version; in every other case it raises. So a version whose major or minor
  component is 10 or more is never reported as it is: \<open>version_components\<close> reads the
  components between the dots as decimal numbers, the way the claim means them.
\<close>

theorem os_identity_by_position:
  assumes "dist sys (world s) = (os_name, v, x)" and "os_name \<noteq> []"
  shows "(fst (get_os_version_and_name sys who s) = Ret (a, b, n) \<longleftrightarrow>
            n = os_name \<and> 3 \<le> length v \<and>
            int_of_char (v ! 0) = Some a \<and> int_of_char (v ! 2) = Some b) \<and>
         ((\<exists>e. fst (get_os_version_and_name sys who s) = Stop (Raise e)) \<longleftrightarrow>
            length v < 3 \<or> int_of_char (v ! 0) = None \<or> int_of_char (v ! 2) = None) \<and>
         (version_components v = Some (major, minor) \<longrightarrow> 10 \<le> major \<or> 10 \<le> minor \<longrightarrow>
            fst (get_os_version_and_name sys who s) \<noteq> Ret (major, minor, os_name))"
proof (intro conjI impI)
  show "fst (get_os_version_and_name sys who s) = Ret (a, b, n) \<longleftrightarrow>
            n = os_name \<and> 3 \<le> length v \<and>
            int_of_char (v ! 0) = Some a \<and> int_of_char (v ! 2) = Some b"
    using os_version_and_name_Inr[OF assms(2), of v x a b n] assms(1)
    by (auto simp: get_os_version_and_name_eq split: sum.splits)
  show "(\<exists>e. fst (get_os_version_and_name sys who s) = Stop (Raise e)) \<longleftrightarrow>
            length v < 3 \<or> int_of_char (v ! 0) = None \<or> int_of_char (v ! 2) = None"
    using os_version_and_name_Inl[OF assms(2), of v x] assms(1)
    by (auto simp: get_os_version_and_name_eq split: sum.splits)
  assume "version_components v = Some (major, minor)" "10 \<le> major \<or> 10 \<le> minor"
  show "fst (get_os_version_and_name sys who s) \<noteq> Ret (major, minor, os_name)"
  proof
    assume "fst (get_os_version_and_name sys who s) = Ret (major, minor, os_name)"
    then have "os_version_and_name (os_name, v, x) = Inr (major, minor, os_name)"
      using assms(1) by (auto simp: get_os_version_and_name_eq split: sum.splits)
    then have "int_of_char (v ! 0) = Some major" "int_of_char (v ! 2) = Some minor"
      using os_version_and_name_Inr[OF assms(2)] by auto
    then have "major \<le> 9" "minor \<le> 9" using int_of_char_range by blast+
    with \<open>10 \<le> major \<or> 10 \<le> minor\<close> show False by auto
  qed
qed

lemma vc: "version_components ''7.10'' = Some (7, 10)"
  by (simp add: version_components_def split_on_def is_digit_def int_of_char_def decimal_def)

theorem os_identity_by_position_witness:
  "dist sysU (world (start () NoFile)) = (''redhat'', ''7.10'', ''Maipo'') \<and> ''redhat'' \<noteq> [] \<and>
   3 \<le> length ''7.10'' \<and> int_of_char (''7.10'' ! 0) = Some 7 \<and> int_of_char (''7.10'' ! 2) = Some 1 \<and>
   fst (get_os_version_and_name sysU ''check_supported_os'' (start () NoFile))
     = Ret (7, 1, ''redhat'') \<and>
   version_components ''7.10'' = Some (7, 10) \<and> (10::int) \<le> 10 \<and>
   fst (get_os_version_and_name sysU ''check_supported_os'' (start () NoFile))
     \<noteq> Ret (7, 10, ''redhat'')"
  using os_identity_by_position[where sys = sysU and s = "start () NoFile"
      and os_name = "''redhat''" and v = "''7.10''" and x = "''Maipo''"
      and who = "''check_supported_os''" and a = 7 and b = 1 and n = "''redhat''"
      and major = 7 and minor = 10]
  by (simp add: sysU_def start_def vc int_of_char_def)

section \<open>Skipped and entered stages\<close>

lemma start_simps [simp]: "world (start w f) = w" "status (start w f) = f" "trace (start w f) = []"
  by (simp_all add: start_def)

lemma step_relD:
  assumes "step_rel n s r s'"
  obtains ev where "trace s' = trace s @ ev" "\<forall>e\<in>set ev. fst e = n"
    "n \<in> set stage_names \<Longrightarrow> (n, ReadStatus n) \<in> set ev"
    "n \<in> set stage_names \<Longrightarrow> flag (status s) n \<Longrightarrow> \<forall>e\<in>set ev. snd e = ReadStatus n"
    "readable (status s) \<Longrightarrow> \<not> flag (status s) n \<Longrightarrow> n \<in> set stage_names \<Longrightarrow>
       \<exists>a. a \<noteq> ReadStatus n \<and> (n, a) \<in> set ev"
    "clean ev \<or> (aborted n r ev \<and> \<not> flag (status s') n \<and> n \<in> set stage_names)"
  using assms unfolding step_rel_def by blast

lemma step_rel_status:
  assumes "step_rel n s r s'"
  shows "readable (status s) \<Longrightarrow> readable (status s')"
    and "flag (status s) k \<Longrightarrow> flag (status s') k"
    and "k \<noteq> n \<Longrightarrow> k \<noteq> ''completed'' \<Longrightarrow> flag (status s') k \<Longrightarrow> flag (status s) k"
  using assms unfolding step_rel_def by blast+






section \<open>Runs on given hosts\<close>

lemmas run_defs = main_def bnd_def ret_def halt_with_def log_def emit_def subprocess_def
  os_geteuid_def platform_dist_def os_path_exists_def os_path_isdir_def os_path_islink_def
  shutil_rmtree_def get_stage_status_def set_successful_stage_status_def
  is_conversion_completed_def is_run_under_root_def check_supported_os_def
  get_os_version_and_name_def os_version_and_name_def int_of_char_def
  SUPPORTED_MAJOR_VERSION_OS_def SUPPORTED_NAME_OS_def remove_redhat_packages_def
  remove_not_needed_dirs_def is_katello_satelite_def remove_katello_satellite_packages_def
  install_centos_packages_def update_the_system_def synchronization_of_distribution_def
  is_efi_system_def recreate_grub_config_def reinstall_secure_boot_related_packages_def
  add_boot_record_by_efibootmgr_def check_and_set_default_grub_record_def start_def Let_def

lemma run_F: "main sysF (start () NoFile) =
  (Stop (Exit 1),
   \<lparr>world = (), status = Doc (JObj [(''check_supported_os'', JBool True)]),
     trace = [(''is_conversion_completed'', ReadStatus ''completed''),
              (''is_run_under_root'', Geteuid 0),
              (''check_supported_os'', ReadStatus ''check_supported_os''),
              (''check_supported_os'', PlatformDist),
              (''check_supported_os'', WriteStatus ''check_supported_os''),
              (''remove_redhat_packages'', ReadStatus ''remove_redhat_packages''),
              (''remove_redhat_packages'', Log LInfo ''Remove Red Hat specific packages \"%s\"''),
              (''remove_redhat_packages'', Call ''rpm -q redhat-release-eula &> /dev/null'' True),
              (''remove_redhat_packages'', Call ''rpm -e --nodeps redhat-release-eula 2>&1'' False),
              (''remove_redhat_packages'',
               Log LError ''Some error is occurred while erasing rpm package \"%s\".'')]\<rparr>)"
  by (simp add: run_defs sysF_def)


lemma run_K: "main (sysK False) (start () docK) =
  (Ret (),
   \<lparr>world = (),
     status = Doc (JObj [(''check_supported_os'', JBool True),
       (''remove_redhat_packages'', JBool True), (''remove_not_needed_dirs'', JBool True),
       (''install_centos_packages'', JBool True), (''update_the_system'', JBool True),
       (''synchronization_of_distribution'', JBool True), (''recreate_grub_config'', JBool True),
       (''check_and_set_default_grub_record'', JBool True), (''completed'', JBool True)]),
     trace = [(''is_conversion_completed'', ReadStatus ''completed''),
              (''is_run_under_root'', Geteuid 0),
              (''check_supported_os'', ReadStatus ''check_supported_os''),
              (''remove_redhat_packages'', ReadStatus ''remove_redhat_packages''),
              (''remove_not_needed_dirs'', ReadStatus ''remove_not_needed_dirs''),
              (''is_katello_satelite'', Call ''rpm -q python-qpid-proton &> /dev/null'' False),
              (''install_centos_packages'', ReadStatus ''install_centos_packages''),
              (''update_the_system'', ReadStatus ''update_the_system''),
              (''synchronization_of_distribution'', ReadStatus ''synchronization_of_distribution''),
              (''is_efi_system'', PathExists ''/sys/firmware/efi'' False),
              (''recreate_grub_config'', ReadStatus ''recreate_grub_config''),
              (''check_and_set_default_grub_record'',
               ReadStatus ''check_and_set_default_grub_record''),
              (''main'', WriteStatus ''completed''),
              (''main'', Log LInfo ''The system is migrated to CentOS 7'')]\<rparr>)"
  by (simp add: run_defs sysK_def docK_def)


lemma run_D: "main sysD (start () docD) =
  (Stop (Raise ''OSError''),
   \<lparr>world = (),
     status = Doc (JObj [(''check_supported_os'', JBool True),
       (''remove_redhat_packages'', JBool True)]),
     trace = [(''is_conversion_completed'', ReadStatus ''completed''),
              (''is_run_under_root'', Geteuid 0),
              (''check_supported_os'', ReadStatus ''check_supported_os''),
              (''remove_redhat_packages'', ReadStatus ''remove_redhat_packages''),
              (''remove_not_needed_dirs'', ReadStatus ''remove_not_needed_dirs''),
              (''remove_not_needed_dirs'',
               Log LInfo ''Remove not needed Red Hat directories \"%s\"''),
              (''remove_not_needed_dirs'', IsDir ''/usr/share/redhat-release'' True),
              (''remove_not_needed_dirs'', IsLink ''/usr/share/redhat-release'' False),
              (''remove_not_needed_dirs'', Rmtree ''/usr/share/redhat-release'' False)]\<rparr>)"
  by (simp add: run_defs sysD_def sysF_def docD_def)

section \<open>Hard failures\<close>

lemma pres_unfailed:
  assumes st: "step_rel n s r s'" and I: "unfailed f s"
  shows "case r of Ret u \<Rightarrow> unfailed f s' | Stop h \<Rightarrow> failed_at f h s'"
proof -
  from st obtain ev where ev: "trace s' = trace s @ ev"
    "clean ev \<or> (aborted n r ev \<and> \<not> flag (status s') n \<and> n \<in> set stage_names)"
    by (rule step_relD) blast
  have fl: "\<forall>k. flag f k \<longrightarrow> flag (status s') k"
    using I step_rel_status(2)[OF st] by (auto simp: unfailed_def)
  from I have cs: "clean (trace s)" by (simp add: unfailed_def)
  show ?thesis
  proof (cases "clean ev")
    case True
    with cs ev(1) have "clean (trace s')" by simp
    with fl show ?thesis by (cases r) (auto simp: unfailed_def failed_at_def)
  next
    case False
    with ev(2) have ab: "aborted n r ev" "\<not> flag (status s') n" "n \<in> set stage_names" by auto
    from aborted_Stop[OF ab(1)] obtain h where r: "r = Stop h" by blast
    from aborted_append[OF cs ab(1)] ev(1) r have "aborted n (Stop h :: unit res) (trace s')"
      by simp
    with ab(2,3) fl have "failed_at f h s'" unfolding failed_at_def by blast
    with r show ?thesis by simp
  qed
qed

lemma main_failed_at:
  "\<exists>r s'. main sys (start w f) = (r, s') \<and>
     (case r of Ret u \<Rightarrow> unfailed f s' | Stop h \<Rightarrow> failed_at f h s')"
proof -
  have h: "hoare (unfailed f) (main sys) (\<lambda>a. unfailed f) (failed_at f)"
    by (rule main_inv) (rule pres_unfailed)
  have I0: "unfailed f (start w f)" by (simp add: unfailed_def)
  obtain r s' where run: "main sys (start w f) = (r, s')" by (cases "main sys (start w f)")
  show ?thesis
    using hoare_RetD[OF h I0, of _ s'] hoare_StopD[OF h I0, of _ s'] run by (cases r) auto
qed

lemma main_aborted:
  assumes "\<not> clean (trace (snd (main sys (start w f))))"
  obtains h n where "fst (main sys (start w f)) = Stop h"
    "aborted n (Stop h :: unit res) (trace (snd (main sys (start w f))))"
    "\<not> flag (status (snd (main sys (start w f)))) n" "\<not> flag f n" "n \<in> set stage_names"
proof -
  from main_failed_at[of sys w f] obtain r s' where run: "main sys (start w f) = (r, s')"
    and c: "case r of Ret u \<Rightarrow> unfailed f s' | Stop h \<Rightarrow> failed_at f h s'" by blast
  from assms run have nc: "\<not> clean (trace s')" by simp
  with c obtain h where r: "r = Stop h" and fa: "failed_at f h s'"
    by (cases r) (auto simp: unfailed_def)
  from fa nc obtain n where n: "aborted n (Stop h :: unit res) (trace s')"
    "\<not> flag (status s') n" "n \<in> set stage_names"
    and fl: "\<forall>k. flag f k \<longrightarrow> flag (status s') k"
    unfolding failed_at_def by blast
  from fl n(2) have "\<not> flag f n" by blast
  with that[of h n] run r n show thesis by simp
qed

lemma main_fail_fast:
  assumes c: "(n, Call c False) \<in> set (trace (snd (main sys (start w f))))"
    and nq: "\<not> presence_query c"
  shows "fst (main sys (start w f)) = Stop (Exit 1) \<and> n \<in> set stage_names \<and>
    \<not> flag f n \<and> \<not> flag (status (snd (main sys (start w f)))) n \<and>
    (\<exists>pre msg. trace (snd (main sys (start w f))) = pre @ [(n, Call c False), (n, Log LError msg)])"
proof -
  let ?T = "trace (snd (main sys (start w f)))"
  from c nq have "\<not> clean ?T" by (force simp: clean_def)
  then obtain h n' where m: "fst (main sys (start w f)) = Stop h"
    "aborted n' (Stop h :: unit res) ?T"
    "\<not> flag (status (snd (main sys (start w f)))) n'" "\<not> flag f n'" "n' \<in> set stage_names"
    by (rule main_aborted)
  from m(2) consider
    (call) pre c' msg where "h = Exit 1"
      "?T = pre @ [(n', Call c' False), (n', Log LError msg)]" "clean pre"
  | (rm) pre p where "?T = pre @ [(n', Rmtree p False)]" "clean pre"
    unfolding aborted_def by auto
  then show ?thesis
  proof cases
    case call
    have "(n, Call c False) \<notin> set pre" using call(3) nq by (auto simp: clean_def)
    with c call(2) have "n' = n" "c' = c" by auto
    with call m show ?thesis by auto
  next
    case rm
    have "(n, Call c False) \<notin> set pre" using rm(2) nq by (auto simp: clean_def)
    with c rm(1) show ?thesis by auto
  qed
qed

lemma main_fail_fast_rmtree:
  assumes c: "(n, Rmtree p False) \<in> set (trace (snd (main sys (start w f))))"
  shows "fst (main sys (start w f)) = Stop (Raise ''OSError'') \<and> n \<in> set stage_names \<and>
    \<not> flag f n \<and> \<not> flag (status (snd (main sys (start w f)))) n \<and>
    (\<exists>pre. trace (snd (main sys (start w f))) = pre @ [(n, Rmtree p False)])"
proof -
  let ?T = "trace (snd (main sys (start w f)))"
  from c have "\<not> clean ?T" by (force simp: clean_def)
  then obtain h n' where m: "fst (main sys (start w f)) = Stop h"
    "aborted n' (Stop h :: unit res) ?T"
    "\<not> flag (status (snd (main sys (start w f)))) n'" "\<not> flag f n'" "n' \<in> set stage_names"
    by (rule main_aborted)
  from m(2) consider
    (call) pre c' msg where "?T = pre @ [(n', Call c' False), (n', Log LError msg)]" "clean pre"
  | (rm) pre p' where "h = Raise ''OSError''" "?T = pre @ [(n', Rmtree p' False)]" "clean pre"
    unfolding aborted_def by auto
  then show ?thesis
  proof cases
    case call
    have "(n, Rmtree p False) \<notin> set pre" using call(2) by (auto simp: clean_def)
    with c call(1) show ?thesis by auto
  next
    case rm
    have "(n, Rmtree p False) \<notin> set pre" using rm(3) by (auto simp: clean_def)
    with c rm(2) have "n' = n" "p' = p" by auto
    with rm m show ?thesis by auto
  qed
qed

text \<open>
  Claim C2, fail-fast isolation. If in a run of \<open>main\<close> a command other than a presence
  query (\<open>rpm -q <package>\<close>, \<open>grubby --info=DEFAULT\<close>) ends with a non-zero status in a
  function \<open>n\<close>, then \<open>n\<close> is a stage, the process exits with code 1, the key of \<open>n\<close> is
  false in the status document at entry and at exit, and the run ends right after the
  failed command and its error log line: no later stage runs. The same holds when
  \<open>shutil.rmtree\<close> fails: its \<open>OSError\<close> ends the process, with exit code 1, at that
  event.
\<close>

theorem fail_fast:
  "((n, Call c False) \<in> set (trace (snd (main sys (start w f)))) \<longrightarrow> \<not> presence_query c \<longrightarrow>
      fst (main sys (start w f)) = Stop (Exit 1) \<and>
      exit_code (fst (main sys (start w f))) \<noteq> 0 \<and>
      n \<in> set stage_names \<and> \<not> flag f n \<and> \<not> flag (status (snd (main sys (start w f)))) n \<and>
      (\<exists>pre msg. trace (snd (main sys (start w f))) =
          pre @ [(n, Call c False), (n, Log LError msg)])) \<and>
   ((n, Rmtree p False) \<in> set (trace (snd (main sys (start w f)))) \<longrightarrow>
      fst (main sys (start w f)) = Stop (Raise ''OSError'') \<and>
      exit_code (fst (main sys (start w f))) \<noteq> 0 \<and>
      n \<in> set stage_names \<and> \<not> flag f n \<and> \<not> flag (status (snd (main sys (start w f)))) n \<and>
      (\<exists>pre. trace (snd (main sys (start w f))) = pre @ [(n, Rmtree p False)]))"
  using main_fail_fast[of n c sys w f] main_fail_fast_rmtree[of n p sys w f] by simp

theorem fail_fast_witness:
  "(''remove_redhat_packages'', Call ''rpm -e --nodeps redhat-release-eula 2>&1'' False)
     \<in> set (trace (snd (main sysF (start () NoFile)))) \<and>
   \<not> presence_query ''rpm -e --nodeps redhat-release-eula 2>&1'' \<and>
   fst (main sysF (start () NoFile)) = Stop (Exit 1) \<and>
   exit_code (fst (main sysF (start () NoFile))) \<noteq> 0 \<and>
   \<not> flag NoFile ''remove_redhat_packages'' \<and>
   \<not> flag (status (snd (main sysF (start () NoFile)))) ''remove_redhat_packages'' \<and>
   (''remove_not_needed_dirs'', Rmtree ''/usr/share/redhat-release'' False)
     \<in> set (trace (snd (main sysD (start () docD)))) \<and>
   fst (main sysD (start () docD)) = Stop (Raise ''OSError'') \<and>
   exit_code (fst (main sysD (start () docD))) \<noteq> 0 \<and>
   \<not> flag docD ''remove_not_needed_dirs'' \<and>
   \<not> flag (status (snd (main sysD (start () docD)))) ''remove_not_needed_dirs''"
proof -
  have a: "(''remove_redhat_packages'', Call ''rpm -e --nodeps redhat-release-eula 2>&1'' False)
     \<in> set (trace (snd (main sysF (start () NoFile))))"
    by (simp add: run_F)
  have b: "\<not> presence_query ''rpm -e --nodeps redhat-release-eula 2>&1''"
    by (simp add: presence_query_def)
  have c: "(''remove_not_needed_dirs'', Rmtree ''/usr/share/redhat-release'' False)
     \<in> set (trace (snd (main sysD (start () docD))))"
    by (simp add: run_D)
  from fail_fast[of "''remove_redhat_packages''" "''rpm -e --nodeps redhat-release-eula 2>&1''"
      sysF "()" NoFile "[]"]
    fail_fast[of "''remove_not_needed_dirs''" "[]" sysD "()" docD "''/usr/share/redhat-release''"]
    a b c
  show ?thesis by blast
qed




section \<open>Guards and the completion key\<close>

lemma stage_skip:
  assumes "flag (status s) n"
  shows "bnd (get_stage_status n n) (\<lambda>d. if truthy d then ret () else body) s
       = (Ret (), emit n (ReadStatus n) s)"
proof -
  from assms have rd: "readable (status s)" by (rule flag_readable)
  from assms have "truthy (case stored (status s) n of None \<Rightarrow> JBool False | Some v \<Rightarrow> v)"
    by (auto simp: flag_def split: option.splits)
  then show ?thesis by (simp add: bnd_def get_readable[OF rd] ret_def)
qed

lemma stage_ret_flag:
  assumes mk: "marks n body"
    and r: "fst (bnd (get_stage_status n n) (\<lambda>d. if truthy d then ret () else body) s) = Ret ()"
  shows "flag (status (snd (bnd (get_stage_status n n)
            (\<lambda>d. if truthy d then ret () else body) s))) n"
proof (cases "flag (status s) n")
  case True
  then show ?thesis by (simp add: stage_skip)
next
  case nf: False
  have rd: "readable (status s)"
  proof (rule ccontr)
    assume "\<not> readable (status s)"
    from get_unreadable[OF this, of n n] r show False by (auto simp: bnd_def)
  qed
  let ?s1 = "emit n (ReadStatus n) s"
  from nf have nt: "\<not> truthy (case stored (status s) n of None \<Rightarrow> JBool False | Some v \<Rightarrow> v)"
    by (auto simp: flag_def split: option.splits)
  have run: "bnd (get_stage_status n n) (\<lambda>d. if truthy d then ret () else body) s = body ?s1"
    using nt by (simp add: bnd_def get_readable[OF rd])
  from mk rd have "status (snd (body ?s1)) =
      (if fst (body ?s1) = Ret () then mark n (status s) else status s)"
    unfolding marks_def by (metis emit_simps(1))
  with r run rd show ?thesis by (simp add: flag_mark)
qed

text \<open>
  Claim C9. \<open>recreate_grub_config\<close> guards and marks the one key
  \<open>recreate_grub_config\<close> whatever path it is given: after a call that returned with
  any path \<open>p\<close>, a call with any path \<open>q\<close>, in any state holding the same status
  document, only reads the key and returns; \<open>grub2-mkconfig\<close> is not run.
\<close>

theorem grub_guard_shared:
  assumes "fst (recreate_grub_config sys p s) = Ret ()"
    and "status s2 = status (snd (recreate_grub_config sys p s))"
  shows "flag (status s2) ''recreate_grub_config'' \<and>
    recreate_grub_config sys' q s2 =
      (Ret (), emit ''recreate_grub_config'' (ReadStatus ''recreate_grub_config'') s2)"
proof -
  have "flag (status (snd (recreate_grub_config sys p s))) ''recreate_grub_config''"
    using assms(1) unfolding recreate_grub_config_def Let_def
    by (rule stage_ret_flag[rotated]) (intro marks_intros keeps_all)
  with assms(2) have f: "flag (status s2) ''recreate_grub_config''" by simp
  then show ?thesis
    unfolding recreate_grub_config_def Let_def by (simp add: stage_skip)
qed

lemma run_G:
  "recreate_grub_config sysG ''/boot/efi/EFI/centos/grub.cfg'' (start () NoFile) =
    (Ret (), \<lparr>world = (), status = Doc (JObj [(''recreate_grub_config'', JBool True)]),
       trace = [(''recreate_grub_config'', ReadStatus ''recreate_grub_config''),
                (''recreate_grub_config'',
                 Call ''grub2-mkconfig -o /boot/efi/EFI/centos/grub.cfg 2>&1'' True),
                (''recreate_grub_config'',
                 Log LInfo ''The grub config is recreated by path \"%s\" successful''),
                (''recreate_grub_config'', WriteStatus ''recreate_grub_config'')]\<rparr>)"
  by (simp add: run_defs sysG_def)

theorem grub_guard_shared_witness:
  "fst (recreate_grub_config sysG ''/boot/efi/EFI/centos/grub.cfg'' (start () NoFile)) = Ret () \<and>
   flag (Doc (JObj [(''recreate_grub_config'', JBool True)])) ''recreate_grub_config'' \<and>
   recreate_grub_config sysG ''/boot/grub2/grub.cfg''
       (start () (Doc (JObj [(''recreate_grub_config'', JBool True)]))) =
     (Ret (), \<lparr>world = (), status = Doc (JObj [(''recreate_grub_config'', JBool True)]),
        trace = [(''recreate_grub_config'', ReadStatus ''recreate_grub_config'')]\<rparr>)"
proof -
  let ?d = "Doc (JObj [(''recreate_grub_config'', JBool True)])"
  have a: "fst (recreate_grub_config sysG ''/boot/efi/EFI/centos/grub.cfg'' (start () NoFile))
      = Ret ()"
    by (simp add: run_G)
  have b: "status (start () ?d) =
      status (snd (recreate_grub_config sysG ''/boot/efi/EFI/centos/grub.cfg'' (start () NoFile)))"
    by (simp add: run_G)
  have c: "emit ''recreate_grub_config'' (ReadStatus ''recreate_grub_config'') (start () ?d) =
      \<lparr>world = (), status = ?d,
        trace = [(''recreate_grub_config'', ReadStatus ''recreate_grub_config'')]\<rparr>"
    by (simp add: start_def emit_def)
  from grub_guard_shared[OF a b, of sysG "''/boot/grub2/grub.cfg''"] a c
  show ?thesis by simp
qed










section \<open>The branches of the orchestrator\<close>

lemma pres_all:
  assumes "step_rel n s r s'" "\<And>a. P (n, a)" "\<forall>e\<in>set (trace s). P e"
  shows "\<forall>e\<in>set (trace s'). P e"
proof -
  from assms(1) obtain ev where ev: "trace s' = trace s @ ev" "\<forall>e\<in>set ev. fst e = n"
    by (rule step_relD) blast
  have "P e" if "e \<in> set ev" for e
    using that ev(2) assms(2)[of "snd e"] by (metis prod.collapse)
  with assms(3) ev(1) show ?thesis by auto
qed

lemma lift_all:
  assumes "step n m" "\<And>a. P (n, a)"
  shows "hoare (\<lambda>s. \<forall>e\<in>set (trace s). P e) m (\<lambda>a s. \<forall>e\<in>set (trace s). P e)
           (\<lambda>h s. \<forall>e\<in>set (trace s). P e)"
proof (rule hoareI)
  fix s a s' assume "\<forall>e\<in>set (trace s). P e" "m s = (Ret a, s')"
  with pres_all[OF step_relI[OF assms(1), of s], of P] assms(2)
  show "\<forall>e\<in>set (trace s'). P e" by simp
next
  fix s h s' assume "\<forall>e\<in>set (trace s). P e" "m s = (Stop h, s')"
  with pres_all[OF step_relI[OF assms(1), of s], of P] assms(2)
  show "\<forall>e\<in>set (trace s'). P e" by simp
qed

lemma hoare_inv_disj:
  assumes "hoare P m (\<lambda>a. P) (\<lambda>h. P)" "hoare Q m (\<lambda>a. Q) (\<lambda>h. Q)"
  shows "hoare (\<lambda>s. P s \<or> Q s) m (\<lambda>a s. P s \<or> Q s) (\<lambda>h s. P s \<or> Q s)"
proof (rule hoareI)
  fix s a s' assume "P s \<or> Q s" "m s = (Ret a, s')"
  then show "P s' \<or> Q s'"
    using hoare_RetD[OF assms(1), of s a s'] hoare_RetD[OF assms(2), of s a s'] by blast
next
  fix s h s' assume "P s \<or> Q s" "m s = (Stop h, s')"
  then show "P s' \<or> Q s'"
    using hoare_StopD[OF assms(1), of s h s'] hoare_StopD[OF assms(2), of s h s'] by blast
qed

lemma hoare_inv_conj:
  assumes "hoare P m (\<lambda>a. P) (\<lambda>h. P)" "hoare Q m (\<lambda>a. Q) (\<lambda>h. Q)"
  shows "hoare (\<lambda>s. P s \<and> Q s) m (\<lambda>a s. P s \<and> Q s) (\<lambda>h s. P s \<and> Q s)"
proof (rule hoareI)
  fix s a s' assume "P s \<and> Q s" "m s = (Ret a, s')"
  then show "P s' \<and> Q s'"
    using hoare_RetD[OF assms(1), of s a s'] hoare_RetD[OF assms(2), of s a s'] by blast
next
  fix s h s' assume "P s \<and> Q s" "m s = (Stop h, s')"
  then show "P s' \<and> Q s'"
    using hoare_StopD[OF assms(1), of s h s'] hoare_StopD[OF assms(2), of s h s'] by blast
qed

lemma lift_all_conj:
  assumes "step n m" "\<And>a. P (n, a)" "\<And>a. Q (n, a)"
  shows "hoare (\<lambda>s. (\<forall>e\<in>set (trace s). P e) \<and> (\<forall>e\<in>set (trace s). Q e)) m
           (\<lambda>a s. (\<forall>e\<in>set (trace s). P e) \<and> (\<forall>e\<in>set (trace s). Q e))
           (\<lambda>h s. (\<forall>e\<in>set (trace s). P e) \<and> (\<forall>e\<in>set (trace s). Q e))"
  by (rule hoare_inv_conj) (rule lift_all[OF assms(1)], rule assms)+

lemma lift_all_disj:
  assumes "step n m" "\<And>a. P (n, a)" "\<And>a. Q (n, a)"
  shows "hoare (\<lambda>s. (\<forall>e\<in>set (trace s). P e) \<or> (\<forall>e\<in>set (trace s). Q e)) m
           (\<lambda>a s. (\<forall>e\<in>set (trace s). P e) \<or> (\<forall>e\<in>set (trace s). Q e))
           (\<lambda>h s. (\<forall>e\<in>set (trace s). P e) \<or> (\<forall>e\<in>set (trace s). Q e))"
  by (rule hoare_inv_disj) (rule lift_all[OF assms(1)], rule assms)+

subsection \<open>The conflicting-agent branch\<close>

lemma is_katello_satelite_eq:
  "is_katello_satelite sys s =
    (let q1 = ''rpm -q python-qpid-proton &> /dev/null'';
         q2 = ''rpm -q python2-qpid-proton &> /dev/null'';
         r1 = shell sys q1 (world s);
         s1 = emit ''is_katello_satelite'' (Call q1 (fst (fst r1))) (s\<lparr>world := snd r1\<rparr>);
         r2 = shell sys q2 (snd r1);
         s2 = emit ''is_katello_satelite'' (Call q2 (fst (fst r2))) (s1\<lparr>world := snd r2\<rparr>)
     in if \<not> fst (fst r1) then (Ret False, s1) else (Ret (fst (fst r2)), s2))"
  unfolding is_katello_satelite_def Let_def
  by (auto simp: bnd_def subprocess_def ret_def split: prod.splits)

lemma hoare_is_katello_satelite:
  "hoare (\<lambda>s. (\<forall>e\<in>set (trace s). no_agent_miss e) \<and> (\<forall>e\<in>set (trace s). no_agent_removal e))
     (is_katello_satelite sys)
     (\<lambda>b s. (\<forall>e\<in>set (trace s). no_agent_removal e) \<and> (b \<longrightarrow> (\<forall>e\<in>set (trace s). no_agent_miss e)))
     (\<lambda>h s. (\<forall>e\<in>set (trace s). no_agent_miss e) \<or> (\<forall>e\<in>set (trace s). no_agent_removal e))"
  by (rule hoareI)
     (auto simp: is_katello_satelite_eq Let_def no_agent_miss_def no_agent_removal_def
           split: if_splits)

lemma main_agent_branch:
  "(\<forall>e\<in>set (trace (snd (main sys (start w f)))). no_agent_miss e) \<or>
   (\<forall>e\<in>set (trace (snd (main sys (start w f)))). no_agent_removal e)"
proof -
  let ?A = "\<lambda>s :: 'a state. \<forall>e\<in>set (trace s). no_agent_miss e"
  let ?B = "\<lambda>s :: 'a state. \<forall>e\<in>set (trace s). no_agent_removal e"
  note LA = steps[THEN lift_all, of no_agent_miss]
  note LB = steps[THEN lift_all, of no_agent_removal]
  note L1 = steps[THEN lift_all_conj, of no_agent_miss no_agent_removal]
  note L2 = steps[THEN lift_all_disj, of no_agent_miss no_agent_removal]
  have br: "hoare (\<lambda>s. ?B s \<and> (b \<longrightarrow> ?A s))
      (if b then remove_katello_satellite_packages sys else ret ())
      (\<lambda>a s. ?A s \<or> ?B s) (\<lambda>h s. ?A s \<or> ?B s)" for b
  proof (cases b)
    case True
    have "hoare ?A (remove_katello_satellite_packages sys) (\<lambda>a. ?A) (\<lambda>h. ?A)"
      by (rule LA) (simp add: no_agent_miss_def)
    then show ?thesis using True by (auto elim!: hoare_weaken)
  next
    case False
    then show ?thesis by (auto intro!: hoare_ret)
  qed
  have h: "hoare (\<lambda>s. ?A s \<and> ?B s) (main sys) (\<lambda>a s. ?A s \<or> ?B s) (\<lambda>h s. ?A s \<or> ?B s)"
    unfolding main_def
    apply (rule hoare_bnd[where R = "\<lambda>a s. ?A s \<and> ?B s"])
     apply (rule hoare_weaken, rule L1; simp add: no_agent_miss_def no_agent_removal_def)
    apply (rule hoare_bnd[where R = "\<lambda>a s. ?A s \<and> ?B s"])
     apply (rule hoare_weaken, rule L1; simp add: no_agent_miss_def no_agent_removal_def)
    apply (rule hoare_bnd[where R = "\<lambda>a s. ?A s \<and> ?B s"])
     apply (rule hoare_weaken, rule L1; simp add: no_agent_miss_def no_agent_removal_def)
    apply (rule hoare_bnd[where R = "\<lambda>a s. ?A s \<and> ?B s"])
     apply (rule hoare_weaken, rule L1; simp add: no_agent_miss_def no_agent_removal_def)
    apply (rule hoare_bnd[where R = "\<lambda>a s. ?A s \<and> ?B s"])
     apply (rule hoare_weaken, rule L1; simp add: no_agent_miss_def no_agent_removal_def)
    apply (rule hoare_bnd[OF hoare_is_katello_satelite])
    apply (rule hoare_bnd[where R = "\<lambda>a s. ?A s \<or> ?B s"])
     apply (rule br)
    apply (intro hoare_bnd[where R = "\<lambda>a s. ?A s \<or> ?B s"] hoare_if L2;
        simp add: no_agent_miss_def no_agent_removal_def)
    done
  obtain r s' where run: "main sys (start w f) = (r, s')" by (cases "main sys (start w f)")
  have "?A (start w f) \<and> ?B (start w f)" by simp
  then have "?A s' \<or> ?B s'"
    using hoare_RetD[OF h, of "start w f" _ s'] hoare_StopD[OF h, of "start w f" _ s'] run
    by (cases r) auto
  with run show ?thesis by simp
qed

text \<open>
  Claim C6, AND-style agent detection. \<open>is_katello_satelite\<close> returns true exactly
  when the query of \<open>python-qpid-proton\<close> and, after it, the query of
  \<open>python2-qpid-proton\<close> both succeed. When one of its queries fails in a run of
  \<open>main\<close>, the trace holds no event of \<open>remove_katello_satellite_packages\<close> at all, not
  even the lookup of its key.
\<close>

theorem katello_detection:
  "fst (is_katello_satelite sys s) =
     Ret (fst (fst (shell sys ''rpm -q python-qpid-proton &> /dev/null'' (world s))) \<and>
          fst (fst (shell sys ''rpm -q python2-qpid-proton &> /dev/null''
                      (snd (shell sys ''rpm -q python-qpid-proton &> /dev/null'' (world s)))))) \<and>
   ((''is_katello_satelite'', Call c False) \<in> set (trace (snd (main sys (start w f)))) \<longrightarrow>
      ''remove_katello_satellite_packages'' \<notin> fst ` set (trace (snd (main sys (start w f)))))"
  using main_agent_branch[of sys w f]
  by (auto simp: is_katello_satelite_eq Let_def no_agent_miss_def no_agent_removal_def)

theorem katello_detection_witness:
  "(''is_katello_satelite'', Call ''rpm -q python-qpid-proton &> /dev/null'' False)
     \<in> set (trace (snd (main (sysK False) (start () docK)))) \<and>
   fst (is_katello_satelite (sysK False) (start () docK)) = Ret False \<and>
   ''remove_katello_satellite_packages''
     \<notin> fst ` set (trace (snd (main (sysK False) (start () docK))))"
proof -
  have a: "(''is_katello_satelite'', Call ''rpm -q python-qpid-proton &> /dev/null'' False)
     \<in> set (trace (snd (main (sysK False) (start () docK))))"
    by (simp add: run_K)
  have b: "fst (fst (shell (sysK False) ''rpm -q python-qpid-proton &> /dev/null''
      (world (start () docK)))) = False"
    by (simp add: sysK_def)
  from katello_detection[of "sysK False" "start () docK"
      "''rpm -q python-qpid-proton &> /dev/null''" "()" docK] a b
  show ?thesis by simp
qed

subsection \<open>The boot-configuration branch\<close>













section \<open>The check of the OS identity\<close>








end
